theory Spec2Isabelle
  imports Main "HOL-Library.Multiset"
begin

section \<open>Strings\<close>

text \<open>
  A Python \<open>str\<close> is a sequence of Unicode code points; slicing, \<open>len\<close>, \<open>find\<close> and
  \<open>strip\<close> count code points. A character is therefore modelled by its code point and a
  string by the list of them. \<open>str ''abc''\<close> is the Python literal \<open>"abc"\<close>.
\<close>

type_synonym pychar = nat
type_synonym pystr = "pychar list"

abbreviation str :: "string \<Rightarrow> pystr" where
  "str s \<equiv> map of_char s"

text \<open>The code points for which \<open>str.isspace\<close> holds; \<open>str.strip()\<close> removes exactly these.\<close>

definition isspace :: "pychar \<Rightarrow> bool" where
  "isspace c = (c \<in> {0x9, 0xA, 0xB, 0xC, 0xD, 0x1C, 0x1D, 0x1E, 0x1F, 0x20, 0x85, 0xA0,
      0x1680, 0x2000, 0x2001, 0x2002, 0x2003, 0x2004, 0x2005, 0x2006, 0x2007, 0x2008,
      0x2009, 0x200A, 0x2028, 0x2029, 0x202F, 0x205F, 0x3000})"

definition lstrip :: "pystr \<Rightarrow> pystr" where
  "lstrip s = dropWhile isspace s"

definition rstrip :: "pystr \<Rightarrow> pystr" where
  "rstrip s = rev (dropWhile isspace (rev s))"

definition strip :: "pystr \<Rightarrow> pystr" where
  "strip s = rstrip (lstrip s)"

text \<open>\<open>sub in s\<close>: the string \<open>sub\<close> occurs in \<open>s\<close> as a contiguous substring.\<close>

fun str_contains :: "pystr \<Rightarrow> pystr \<Rightarrow> bool" where
  "str_contains sub [] = (sub = [])"
| "str_contains sub (c # cs) = (take (length sub) (c # cs) = sub \<or> str_contains sub cs)"

text \<open>
  \<open>s.find(sub, start)\<close> for \<open>0 \<le> start\<close>: the lowest index \<open>i \<ge> start\<close> at which \<open>sub\<close>
  occurs in \<open>s\<close>; \<open>None\<close> stands for the result \<open>-1\<close>.
\<close>

fun find_at :: "pystr \<Rightarrow> pystr \<Rightarrow> nat \<Rightarrow> nat option" where
  "find_at sub [] i = (if sub = [] then Some i else None)"
| "find_at sub (c # cs) i =
     (if take (length sub) (c # cs) = sub then Some i else find_at sub cs (Suc i))"

definition find_from :: "pystr \<Rightarrow> pystr \<Rightarrow> nat \<Rightarrow> nat option" where
  "find_from s sub start =
     (if start \<le> length s then find_at sub (drop start s) start else None)"

text \<open>The slice \<open>s[i:j]\<close> for \<open>0 \<le> i\<close> and \<open>0 \<le> j\<close>.\<close>

definition slice :: "pystr \<Rightarrow> nat \<Rightarrow> nat \<Rightarrow> pystr" where
  "slice s i j = take (j - i) (drop i s)"

text \<open>\<open>s.replace(old, new)\<close> for a one-character \<open>old\<close>.\<close>

definition replace_char :: "pystr \<Rightarrow> pychar \<Rightarrow> pystr \<Rightarrow> pystr" where
  "replace_char s old new = concat (map (\<lambda>c. if c = old then new else [c]) s)"

text \<open>Decimal rendering of an integer, as \<open>f"{n}"\<close> prints it.\<close>

fun show_nat :: "nat \<Rightarrow> pystr" where
  "show_nat n = (if n < 10 then [48 + n] else show_nat (n div 10) @ [48 + n mod 10])"

declare show_nat.simps [simp del]

definition show_int :: "int \<Rightarrow> pystr" where
  "show_int i = (if i < 0 then 45 # show_nat (nat (- i)) else show_nat (nat i))"

section \<open>Exceptions\<close>

text \<open>
  Every call that can raise returns a sum: \<open>Inl e\<close> is the exception \<open>e\<close> propagating
  out of the call, \<open>Inr v\<close> the returned value.
\<close>

datatype exn = TypeError | ValueError | ParseError | OverflowError | OtherError

section \<open>Dates and times\<close>

text \<open>
  A \<open>datetime\<close> object has the civil fields and an optional UTC offset (in
  microseconds): \<open>None\<close> is a naive datetime, \<open>Some off\<close> an aware one. The ordinal
  arithmetic follows the standard library's \<open>datetime\<close> module.
\<close>

record datetime =
  year :: int
  month :: int
  day :: int
  hour :: int
  minute :: int
  second :: int
  microsecond :: int
  utcoffset :: "int option"

definition is_leap :: "int \<Rightarrow> bool" where
  "is_leap y = (y mod 4 = 0 \<and> (y mod 100 \<noteq> 0 \<or> y mod 400 = 0))"

definition days_before_year :: "int \<Rightarrow> int" where
  "days_before_year y = (y - 1) * 365 + (y - 1) div 4 - (y - 1) div 100 + (y - 1) div 400"

definition days_in_month :: "int \<Rightarrow> int \<Rightarrow> int" where
  "days_in_month y m =
     (if m = 2 then (if is_leap y then 29 else 28)
      else if m \<in> {4, 6, 9, 11} then 30 else 31)"

text \<open>The days of the year before the first of month \<open>m\<close>, for a month from 1 to 12.\<close>

definition days_before_month :: "int \<Rightarrow> int \<Rightarrow> int" where
  "days_before_month y m =
     [0, 31, 59, 90, 120, 151, 181, 212, 243, 273, 304, 334] ! nat (m - 1)
       + (if m > 2 \<and> is_leap y then 1 else 0)"

definition toordinal :: "datetime \<Rightarrow> int" where
  "toordinal dt = days_before_year (year dt) + days_before_month (year dt) (month dt) + day dt"

text \<open>The invariant of every \<open>datetime\<close> object the library constructs.\<close>

definition valid_datetime :: "datetime \<Rightarrow> bool" where
  "valid_datetime dt =
     (1 \<le> year dt \<and> year dt \<le> 9999 \<and> 1 \<le> month dt \<and> month dt \<le> 12 \<and>
      1 \<le> day dt \<and> day dt \<le> days_in_month (year dt) (month dt) \<and>
      0 \<le> hour dt \<and> hour dt < 24 \<and> 0 \<le> minute dt \<and> minute dt < 60 \<and>
      0 \<le> second dt \<and> second dt < 60 \<and> 0 \<le> microsecond dt \<and> microsecond dt < 1000000 \<and>
      (case utcoffset dt of None \<Rightarrow> True
       | Some off \<Rightarrow> - 86400000000 < off \<and> off < 86400000000))"

definition is_aware :: "datetime \<Rightarrow> bool" where
  "is_aware dt = (utcoffset dt \<noteq> None)"

text \<open>
  A \<open>timedelta\<close> is kept normalised: \<open>0 \<le> seconds < 86400\<close> and
  \<open>0 \<le> microseconds < 1000000\<close>; only \<open>days\<close> carries the sign.
\<close>

record timedelta =
  days :: int
  seconds :: int
  microseconds :: int

definition td_of_us :: "int \<Rightarrow> timedelta" where
  "td_of_us us =
     \<lparr>days = us div 86400000000,
      seconds = (us mod 86400000000) div 1000000,
      microseconds = us mod 1000000\<rparr>"

definition mk_timedelta :: "int \<Rightarrow> int \<Rightarrow> int \<Rightarrow> timedelta" where
  "mk_timedelta d s us = td_of_us ((d * 86400 + s) * 1000000 + us)"

text \<open>Microseconds from the start of day 0 of the proleptic calendar to the civil fields.\<close>

definition local_us :: "datetime \<Rightarrow> int" where
  "local_us dt =
     ((toordinal dt * 86400 + hour dt * 3600 + minute dt * 60 + second dt) * 1000000
        + microsecond dt)"

text \<open>
  The position of a datetime on its time line: aware datetimes are ordered by their UTC
  instant, naive ones by their fields.
\<close>

definition timeline_us :: "datetime \<Rightarrow> int" where
  "timeline_us dt = local_us dt - (case utcoffset dt of None \<Rightarrow> 0 | Some off \<Rightarrow> off)"

text \<open>
  \<open>a - b\<close> on datetimes: a naive and an aware operand raise \<open>TypeError\<close>.
\<close>

definition sub_datetime :: "datetime \<Rightarrow> datetime \<Rightarrow> exn + timedelta" where
  "sub_datetime a b =
     (if is_aware a \<noteq> is_aware b then Inl TypeError
      else Inr (td_of_us (timeline_us a - timeline_us b)))"


text \<open>\<open>datetime.min.replace(tzinfo=timezone.utc)\<close>\<close>

definition datetime_min_utc :: datetime where
  "datetime_min_utc =
     \<lparr>year = 1, month = 1, day = 1, hour = 0, minute = 0, second = 0, microsecond = 0,
      utcoffset = Some 0\<rparr>"

text \<open>
  \<open>dt.strftime("%b %d, %Y")\<close> in the C locale: abbreviated month name (of a month from
  1 to 12), day of the month padded to two digits, and the year in decimal.
\<close>

definition month_abbr :: "int \<Rightarrow> pystr" where
  "month_abbr m =
     [str ''Jan'', str ''Feb'', str ''Mar'', str ''Apr'', str ''May'', str ''Jun'',
      str ''Jul'', str ''Aug'', str ''Sep'', str ''Oct'', str ''Nov'', str ''Dec'']
       ! nat (m - 1)"

definition pad2 :: "int \<Rightarrow> pystr" where
  "pad2 n = (if n < 10 then str ''0'' @ show_int n else show_int n)"

definition strftime_b_d_Y :: "datetime \<Rightarrow> pystr" where
  "strftime_b_d_Y dt =
     month_abbr (month dt) @ str '' '' @ pad2 (day dt) @ str '', '' @ show_int (year dt)"

section \<open>The date label\<close>

text \<open>
  \<open>format_date\<close> reads the clock; the model receives the reading \<open>now\<close>, which the
  source obtains as \<open>datetime.now(timezone.utc)\<close>, as its first argument.
\<close>

definition format_date :: "datetime \<Rightarrow> datetime option \<Rightarrow> exn + pystr" where
  "format_date now dto =
     (case dto of
        None \<Rightarrow> Inr []
      | Some dt \<Rightarrow>
          (case sub_datetime now dt of
             Inl e \<Rightarrow> Inl e
           | Inr diff \<Rightarrow>
               Inr (if days diff = 0 then
                      (let hours = seconds diff div 3600 in
                       if hours = 0 then
                         (let mins = seconds diff div 60 in
                          if mins > 0 then show_int mins @ str ''m ago'' else str ''just now'')
                       else show_int hours @ str ''h ago'')
                    else if days diff = 1 then str ''yesterday''
                    else if days diff < 7 then show_int (days diff) @ str ''d ago''
                    else strftime_b_d_Y dt)))"

section \<open>Character references\<close>

text \<open>
  \<open>html.unescape\<close> of the standard library, following \<open>html/__init__.py\<close>. The table
  \<open>html5\<close> of named references (\<open>html.entities.html5\<close>, whose keys are names such as
  \<open>amp;\<close>, \<open>amp\<close>, \<open>lt;\<close>) is an argument. The pattern is
  \<open>&(#[0-9]+;?|#[xX][0-9a-fA-F]+;?|[^\t\n\f <&#;]{1,32};?)\<close>.
\<close>

definition is_digit :: "pychar \<Rightarrow> bool" where
  "is_digit c = (48 \<le> c \<and> c \<le> 57)"

definition is_hexdigit :: "pychar \<Rightarrow> bool" where
  "is_hexdigit c = (is_digit c \<or> (97 \<le> c \<and> c \<le> 102) \<or> (65 \<le> c \<and> c \<le> 70))"

definition is_namechar :: "pychar \<Rightarrow> bool" where
  "is_namechar c = (c \<notin> {0x9, 0xA, 0xC, 0x20, 0x3C, 0x26, 0x23, 0x3B})"

definition digit_value :: "pychar \<Rightarrow> nat" where
  "digit_value c = (if is_digit c then c - 48 else if 97 \<le> c then c - 87 else c - 55)"

definition digits_value :: "nat \<Rightarrow> pystr \<Rightarrow> nat" where
  "digits_value base ds = foldl (\<lambda>acc c. acc * base + digit_value c) 0 ds"

text \<open>
  \<open>int(ds)\<close> and \<open>int(ds, 16)\<close> on a text of digits. The interpreter limits the conversion of
  decimal texts: more than \<open>sys.int_info.default_max_str_digits\<close> digits, leading zeros
  counted, raise \<open>ValueError\<close>. Base 16 has no limit.
\<close>

definition max_str_digits :: nat where
  "max_str_digits = 4300"

definition int_of_digits :: "nat \<Rightarrow> pystr \<Rightarrow> exn + nat" where
  "int_of_digits base ds =
     (if base = 10 \<and> max_str_digits < length ds then Inl ValueError
      else Inr (digits_value base ds))"

definition opt_semicolon :: "pystr \<Rightarrow> pystr" where
  "opt_semicolon r = (case r of [] \<Rightarrow> [] | c # _ \<Rightarrow> if c = 0x3B then [c] else [])"

text \<open>
  The match of the group at the text \<open>r\<close> that follows an ampersand: the matched string,
  or \<open>None\<close> when the pattern does not match there.
\<close>

definition match_charref :: "pystr \<Rightarrow> pystr option" where
  "match_charref r =
     (case r of
        [] \<Rightarrow> None
      | c # r1 \<Rightarrow>
          if c = 0x23 then
            (let ds = takeWhile is_digit r1 in
             if ds \<noteq> [] then Some (c # ds @ opt_semicolon (drop (length ds) r1))
             else
               (case r1 of
                  [] \<Rightarrow> None
                | x # r2 \<Rightarrow>
                    if x = 0x78 \<or> x = 0x58 then
                      (let hs = takeWhile is_hexdigit r2 in
                       if hs \<noteq> [] then Some (c # x # hs @ opt_semicolon (drop (length hs) r2))
                       else None)
                    else None))
          else
            (let nm = takeWhile is_namechar (take 32 r) in
             if nm \<noteq> [] then Some (nm @ opt_semicolon (drop (length nm) r)) else None))"

definition invalid_charrefs :: "(nat \<times> pychar) list" where
  "invalid_charrefs =
     [(0x00, 0xFFFD), (0x0D, 0x0D), (0x80, 0x20AC), (0x81, 0x81), (0x82, 0x201A),
      (0x83, 0x0192), (0x84, 0x201E), (0x85, 0x2026), (0x86, 0x2020), (0x87, 0x2021),
      (0x88, 0x02C6), (0x89, 0x2030), (0x8A, 0x0160), (0x8B, 0x2039), (0x8C, 0x0152),
      (0x8D, 0x8D), (0x8E, 0x017D), (0x8F, 0x8F), (0x90, 0x90), (0x91, 0x2018),
      (0x92, 0x2019), (0x93, 0x201C), (0x94, 0x201D), (0x95, 0x2022), (0x96, 0x2013),
      (0x97, 0x2014), (0x98, 0x02DC), (0x99, 0x2122), (0x9A, 0x0161), (0x9B, 0x203A),
      (0x9C, 0x0153), (0x9D, 0x9D), (0x9E, 0x017E), (0x9F, 0x0178)]"

definition invalid_codepoint :: "nat \<Rightarrow> bool" where
  "invalid_codepoint n =
     ((0x1 \<le> n \<and> n \<le> 0x8) \<or> (0xE \<le> n \<and> n \<le> 0x1F) \<or> (0x7F \<le> n \<and> n \<le> 0x9F) \<or>
      (0xFDD0 \<le> n \<and> n \<le> 0xFDEF) \<or> n = 0xB \<or>
      (0xFFFE \<le> n \<and> n \<le> 0x10FFFF \<and> (n mod 0x10000 = 0xFFFE \<or> n mod 0x10000 = 0xFFFF)))"

text \<open>The longest proper prefix of \<open>s\<close>, of at least two characters, that is a name of the table.\<close>

fun longest_name :: "(pystr \<times> pystr) list \<Rightarrow> pystr \<Rightarrow> nat \<Rightarrow> pystr option" where
  "longest_name html5 s 0 = None"
| "longest_name html5 s (Suc x) =
     (if Suc x \<le> 1 then None
      else (case map_of html5 (take (Suc x) s) of
              Some v \<Rightarrow> Some (v @ drop (Suc x) s)
            | None \<Rightarrow> longest_name html5 s x))"

text \<open>
  \<open>_replace_charref\<close> on a match \<open>s\<close> of the group: \<open>s\<close> is not empty, and after a leading
  \<open>#\<close> it has at least one more character.
\<close>

definition replace_charref :: "(pystr \<times> pystr) list \<Rightarrow> pystr \<Rightarrow> exn + pystr" where
  "replace_charref html5 s =
     (if hd s = 0x23 then
        (case (if s ! 1 = 0x78 \<or> s ! 1 = 0x58
               then int_of_digits 16 (takeWhile is_hexdigit (drop 2 s))
               else int_of_digits 10 (takeWhile is_digit (drop 1 s))) of
           Inl e \<Rightarrow> Inl e
         | Inr num \<Rightarrow>
             Inr (case map_of invalid_charrefs num of
                    Some c \<Rightarrow> [c]
                  | None \<Rightarrow>
                      if (0xD800 \<le> num \<and> num \<le> 0xDFFF) \<or> num > 0x10FFFF then [0xFFFD]
                      else if invalid_codepoint num then []
                      else [num]))
      else
        Inr (case map_of html5 s of
               Some v \<Rightarrow> v
             | None \<Rightarrow>
                 (case longest_name html5 s (length s - 1) of
                    Some v \<Rightarrow> v
                  | None \<Rightarrow> 0x26 # s)))"

text \<open>
  \<open>_charref.sub(_replace_charref, s)\<close>: a left-to-right scan; \<open>skip\<close> counts the
  characters of the current match that are still to be passed over. The exception of a
  replacement ends the scan.
\<close>

fun sub_charref :: "(pystr \<times> pystr) list \<Rightarrow> nat \<Rightarrow> pystr \<Rightarrow> exn + pystr" where
  "sub_charref html5 skip [] = Inr []"
| "sub_charref html5 skip (c # cs) =
     (if skip > 0 then sub_charref html5 (skip - 1) cs
      else if c = 0x26 then
        (case match_charref cs of
           Some m \<Rightarrow>
             (case replace_charref html5 m of
                Inl e \<Rightarrow> Inl e
              | Inr r \<Rightarrow>
                  (case sub_charref html5 (length m) cs of
                     Inl e \<Rightarrow> Inl e
                   | Inr rest \<Rightarrow> Inr (r @ rest)))
         | None \<Rightarrow>
             (case sub_charref html5 0 cs of Inl e \<Rightarrow> Inl e | Inr rest \<Rightarrow> Inr (c # rest)))
      else
        (case sub_charref html5 0 cs of Inl e \<Rightarrow> Inl e | Inr rest \<Rightarrow> Inr (c # rest)))"

definition unescape :: "(pystr \<times> pystr) list \<Rightarrow> pystr \<Rightarrow> exn + pystr" where
  "unescape html5 s = (if 0x26 \<notin> set s then Inr s else sub_charref html5 0 s)"

section \<open>The HTML stripper\<close>

text \<open>The loop of \<open>strip_html\<close>: \<open>in_tag\<close> is the flag, the result the characters kept.\<close>

fun remove_tags :: "bool \<Rightarrow> pystr \<Rightarrow> pystr" where
  "remove_tags in_tag [] = []"
| "remove_tags in_tag (ch # rest) =
     (if ch = 0x3C then remove_tags True rest
      else if ch = 0x3E then remove_tags False rest
      else if \<not> in_tag then ch # remove_tags in_tag rest
      else remove_tags in_tag rest)"

definition strip_html :: "(pystr \<times> pystr) list \<Rightarrow> pystr \<Rightarrow> exn + pystr" where
  "strip_html html5 text =
     (case unescape html5 (remove_tags False text) of
        Inl e \<Rightarrow> Inl e
      | Inr plain \<Rightarrow> Inr (strip plain))"

section \<open>XML trees\<close>

text \<open>
  An \<open>xml.etree.ElementTree.Element\<close>: tag (a namespaced tag is written
  \<open>{uri}local\<close>), attributes, text (\<open>None\<close> when the element has none) and children in
  document order.
\<close>

datatype element =
  Element (tag: pystr) (attrib: "(pystr \<times> pystr) list") (elem_text: "pystr option")
    (children: "element list")

text \<open>\<open>elem.find(t)\<close> for a plain tag \<open>t\<close>: the first child with that tag.\<close>

definition find_child :: "element \<Rightarrow> pystr \<Rightarrow> element option" where
  "find_child elem t = List.find (\<lambda>c. tag c = t) (children elem)"

text \<open>\<open>elem.findtext(t, default)\<close>: an element found without text gives the empty string.\<close>

definition findtext :: "element \<Rightarrow> pystr \<Rightarrow> pystr \<Rightarrow> pystr" where
  "findtext elem t dflt =
     (case find_child elem t of
        None \<Rightarrow> dflt
      | Some c \<Rightarrow> (case elem_text c of None \<Rightarrow> [] | Some s \<Rightarrow> s))"

text \<open>\<open>elem.get(key, default)\<close>\<close>

definition get_attr :: "element \<Rightarrow> pystr \<Rightarrow> pystr \<Rightarrow> pystr" where
  "get_attr elem key dflt = (case map_of (attrib elem) key of None \<Rightarrow> dflt | Some v \<Rightarrow> v)"

text \<open>All proper descendants in document order, as \<open>.//\<close> visits them.\<close>

fun descendants :: "element \<Rightarrow> element list" where
  "descendants (Element t a x cs) = concat (map (\<lambda>c. c # descendants c) cs)"

text \<open>\<open>root.findall(".//t")\<close> and \<open>root.findall("t")\<close>\<close>

definition findall_descendants :: "element \<Rightarrow> pystr \<Rightarrow> element list" where
  "findall_descendants root t = filter (\<lambda>c. tag c = t) (descendants root)"

definition findall_children :: "element \<Rightarrow> pystr \<Rightarrow> element list" where
  "findall_children root t = filter (\<lambda>c. tag c = t) (children root)"

text \<open>\<open>elem.find("t[@key='v']")\<close>: the first child with tag \<open>t\<close> whose attribute \<open>key\<close> is \<open>v\<close>.\<close>

definition find_child_attr :: "element \<Rightarrow> pystr \<Rightarrow> pystr \<Rightarrow> pystr \<Rightarrow> element option" where
  "find_child_attr elem t key v =
     List.find (\<lambda>c. tag c = t \<and> map_of (attrib c) key = Some v) (children elem)"

text \<open>\<open>elem.find("t/u")\<close>: the first \<open>u\<close> child of a \<open>t\<close> child.\<close>

definition find_grandchild :: "element \<Rightarrow> pystr \<Rightarrow> pystr \<Rightarrow> element option" where
  "find_grandchild elem t u =
     (case concat (map (\<lambda>c. findall_children c u) (findall_children elem t)) of
        [] \<Rightarrow> None
      | g # _ \<Rightarrow> Some g)"

section \<open>Library calls taken as given\<close>

text \<open>
  The XML parser and the two date parsers of the standard library, and the table of
  named character references. Each parser returns the exception it raises or its value.
\<close>

record stdlib =
  fromstring :: "pystr \<Rightarrow> exn + element"
  parsedate_to_datetime :: "pystr \<Rightarrow> exn + datetime"
  fromisoformat :: "pystr \<Rightarrow> exn + datetime"
  html5 :: "(pystr \<times> pystr) list"

section \<open>Entries\<close>

text \<open>The dictionary that \<open>parse_rss\<close> and \<open>parse_atom\<close> append for each item.\<close>

record entry =
  title :: pystr
  link :: pystr
  description :: pystr
  date :: "datetime option"
  source :: pystr
  category :: pystr
  author :: pystr
  image_url :: pystr

text \<open>
  A date parser called inside \<open>try\<close> with \<open>except (ValueError, TypeError): pass\<close>: the
  two exceptions leave the date \<open>None\<close>, any other propagates.
\<close>

definition try_parse_date :: "(pystr \<Rightarrow> exn + datetime) \<Rightarrow> pystr \<Rightarrow> exn + datetime option" where
  "try_parse_date parse s =
     (case parse s of
        Inr d \<Rightarrow> Inr (Some d)
      | Inl e \<Rightarrow> if e = ValueError \<or> e = TypeError then Inr None else Inl e)"

text \<open>
  The loop over the nodes of a feed: \<open>f\<close> is the loop body, which yields the entry to append
  or \<open>None\<close>; an exception leaves the loop.
\<close>

fun parse_nodes :: "(element \<Rightarrow> exn + entry option) \<Rightarrow> element list \<Rightarrow> exn + entry list" where
  "parse_nodes f [] = Inr []"
| "parse_nodes f (x # xs) =
     (case f x of
        Inl e \<Rightarrow> Inl e
      | Inr r \<Rightarrow>
          (case parse_nodes f xs of
             Inl e \<Rightarrow> Inl e
           | Inr items \<Rightarrow> Inr (case r of None \<Rightarrow> items | Some it \<Rightarrow> it # items)))"

section \<open>The RSS normalizer\<close>

definition mrss_content :: pystr where
  "mrss_content = str ''{http://search.yahoo.com/mrss/}content''"

definition content_encoded :: pystr where
  "content_encoded = str ''{http://purl.org/rss/1.0/modules/content/}encoded''"

definition dc_creator :: pystr where
  "dc_creator = str ''{http://purl.org/dc/elements/1.1/}creator''"

text \<open>The image of an item (the three attempts of \<open>parse_rss\<close>, in the source's order).\<close>

definition scan_img :: "pystr \<Rightarrow> pystr" where
  "scan_img content =
     (case find_from content (str ''<img'') 0 of
        None \<Rightarrow> []
      | Some img_start \<Rightarrow>
          (case find_from content (str ''src='' @ [0x22]) img_start of
             None \<Rightarrow> []
           | Some src_start \<Rightarrow>
               (case find_from content [0x22] (src_start + 5) of
                  None \<Rightarrow> []
                | Some src_end \<Rightarrow> slice content (src_start + 5) src_end)))"

definition rss_image :: "element \<Rightarrow> pystr" where
  "rss_image item =
     (let image = (case find_child item mrss_content of
                     None \<Rightarrow> []
                   | Some media \<Rightarrow> get_attr media (str ''url'') []);
          image = (if image = [] then
                     (case find_child item (str ''enclosure'') of
                        None \<Rightarrow> image
                      | Some enclosure \<Rightarrow>
                          if str_contains (str ''image'') (get_attr enclosure (str ''type'') [])
                          then get_attr enclosure (str ''url'') []
                          else image)
                   else image)
      in if image = [] then
           (let content = findtext item content_encoded []
            in if content \<noteq> [] then scan_img content else image)
         else image)"

text \<open>
  The body of the loop of \<open>parse_rss\<close>. \<open>strip_html\<close> is called where the dictionary is
  built, so only for an item that is appended.
\<close>

definition rss_item :: "stdlib \<Rightarrow> pystr \<Rightarrow> pystr \<Rightarrow> element \<Rightarrow> exn + entry option" where
  "rss_item L source_name source_category item =
     (let title = strip (findtext item (str ''title'') []);
          link = strip (findtext item (str ''link'') []);
          desc = strip (findtext item (str ''description'') []);
          pub_date_str = strip (findtext item (str ''pubDate'') []);
          author = strip (findtext item dc_creator []);
          author = (if author = [] then strip (findtext item (str ''author'') []) else author);
          image = rss_image item
      in case (if pub_date_str \<noteq> [] then try_parse_date (parsedate_to_datetime L) pub_date_str
               else Inr None) of
           Inl e \<Rightarrow> Inl e
         | Inr pub_date \<Rightarrow>
             if title \<noteq> [] \<and> link \<noteq> [] then
               (case strip_html (html5 L) desc of
                  Inl e \<Rightarrow> Inl e
                | Inr plain \<Rightarrow>
                    Inr (Some \<lparr>title = title, link = link, description = take 300 plain,
                               date = pub_date, source = source_name,
                               category = source_category, author = author,
                               image_url = image\<rparr>))
             else Inr None)"

definition parse_rss :: "stdlib \<Rightarrow> pystr \<Rightarrow> pystr \<Rightarrow> pystr \<Rightarrow> exn + entry list" where
  "parse_rss L xml_text source_name source_category =
     (case fromstring L xml_text of
        Inl e \<Rightarrow> if e = ParseError then Inr [] else Inl e
      | Inr root \<Rightarrow>
          parse_nodes (rss_item L source_name source_category)
            (findall_descendants root (str ''item'')))"

section \<open>The Atom normalizer\<close>

definition atom :: "string \<Rightarrow> pystr" where
  "atom local = str ''{http://www.w3.org/2005/Atom}'' @ str local"

text \<open>The date string of an entry and its parse (\<open>Z\<close> is code point 90).\<close>

definition atom_date_str :: "element \<Rightarrow> pystr" where
  "atom_date_str entry =
     (let updated = strip (findtext entry (atom ''updated'') []);
          published = strip (findtext entry (atom ''published'') [])
      in if published \<noteq> [] then published else updated)"

definition atom_pub_date :: "stdlib \<Rightarrow> pystr \<Rightarrow> exn + datetime option" where
  "atom_pub_date L date_str =
     (if date_str \<noteq> []
      then try_parse_date (fromisoformat L) (replace_char date_str 90 (str ''+00:00''))
      else Inr None)"

text \<open>The summary of an entry, before it is stripped of markup.\<close>

definition atom_summary :: "element \<Rightarrow> pystr" where
  "atom_summary entry =
     (let summary = strip (findtext entry (atom ''summary'') [])
      in if summary = [] then
           (case find_child entry (atom ''content'') of
              None \<Rightarrow> summary
            | Some content_el \<Rightarrow>
                (case elem_text content_el of
                   None \<Rightarrow> summary
                 | Some t \<Rightarrow> if t \<noteq> [] then strip t else summary))
         else summary)"

text \<open>
  The body of the loop of \<open>parse_atom\<close>. \<open>strip_html\<close> is called where the dictionary is
  built, so only for an entry that is appended.
\<close>

definition atom_entry :: "stdlib \<Rightarrow> pystr \<Rightarrow> pystr \<Rightarrow> element \<Rightarrow> exn + entry option" where
  "atom_entry L source_name source_category entry =
     (let title = strip (findtext entry (atom ''title'') []);
          link_el = (case find_child_attr entry (atom ''link'') (str ''rel'') (str ''alternate'') of
                       None \<Rightarrow> find_child entry (atom ''link'')
                     | Some l \<Rightarrow> Some l);
          link = (case link_el of None \<Rightarrow> [] | Some l \<Rightarrow> get_attr l (str ''href'') []);
          summary = atom_summary entry;
          date_str = atom_date_str entry;
          author = (case find_grandchild entry (atom ''author'') (atom ''name'') of
                      None \<Rightarrow> []
                    | Some author_el \<Rightarrow>
                        (case elem_text author_el of
                           None \<Rightarrow> []
                         | Some t \<Rightarrow> if t \<noteq> [] then strip t else []))
      in case atom_pub_date L date_str of
           Inl e \<Rightarrow> Inl e
         | Inr pub_date \<Rightarrow>
             if title \<noteq> [] \<and> link \<noteq> [] then
               (case strip_html (html5 L) summary of
                  Inl e \<Rightarrow> Inl e
                | Inr plain \<Rightarrow>
                    Inr (Some \<lparr>title = title, link = link, description = take 300 plain,
                               date = pub_date, source = source_name,
                               category = source_category, author = author,
                               image_url = []\<rparr>))
             else Inr None)"

definition parse_atom :: "stdlib \<Rightarrow> pystr \<Rightarrow> pystr \<Rightarrow> pystr \<Rightarrow> exn + entry list" where
  "parse_atom L xml_text source_name source_category =
     (case fromstring L xml_text of
        Inl e \<Rightarrow> if e = ParseError then Inr [] else Inl e
      | Inr root \<Rightarrow>
          parse_nodes (atom_entry L source_name source_category)
            (findall_children root (atom ''entry'')))"

section \<open>The run\<close>

definition MAX_ITEMS :: nat where
  "MAX_ITEMS = 200"

text \<open>A feed of the configuration, with the default of \<open>category\<close> filled in.\<close>

record feed =
  name :: pystr
  url :: pystr
  feed_category :: pystr

text \<open>The test of \<open>main\<close> that chooses the parser.\<close>

definition is_atom :: "pystr \<Rightarrow> bool" where
  "is_atom xml_text = str_contains (str ''<feed'') (take 500 xml_text)"

text \<open>
  One round of the loop of \<open>main\<close>. The network is outside the model: \<open>fetched\<close> is what
  \<open>fetch_feed\<close> returned for the feed, \<open>None\<close> after a failed fetch.
\<close>

definition process_feed :: "stdlib \<Rightarrow> feed \<Rightarrow> pystr option \<Rightarrow> exn + entry list" where
  "process_feed L f fetched =
     (case fetched of
        None \<Rightarrow> Inr []
      | Some xml_text \<Rightarrow>
          if is_atom xml_text then parse_atom L xml_text (name f) (feed_category f)
          else parse_rss L xml_text (name f) (feed_category f))"

fun collect_items :: "stdlib \<Rightarrow> (feed \<times> pystr option) list \<Rightarrow> exn + entry list" where
  "collect_items L [] = Inr []"
| "collect_items L ((f, fetched) # rest) =
     (case process_feed L f fetched of
        Inl e \<Rightarrow> Inl e
      | Inr items \<Rightarrow>
          (case collect_items L rest of
             Inl e \<Rightarrow> Inl e
           | Inr others \<Rightarrow> Inr (items @ others)))"

text \<open>The sort key \<open>x["date"] or datetime.min.replace(tzinfo=timezone.utc)\<close>.\<close>

definition sort_key_of :: "entry \<Rightarrow> datetime" where
  "sort_key_of x = (case date x of None \<Rightarrow> datetime_min_utc | Some d \<Rightarrow> d)"

text \<open>
  \<open>all_items.sort(key=..., reverse=True)\<close>. The library's sort is stable, also in
  reverse, and compares keys with \<open><\<close> (\<open>lt_datetime\<close>), whose exception it lets through.
  A comparison sort cannot order a list in which a naive and an aware key both occur
  without comparing some naive key with some aware one, which raises \<open>TypeError\<close>; a list
  of fewer than two items has no such pair. Otherwise all keys lie on one time line, no
  comparison raises, and the result is the stable sort by decreasing position on it.
\<close>

definition mixed_keys :: "datetime list \<Rightarrow> bool" where
  "mixed_keys ks = (list_ex is_aware ks \<and> list_ex (\<lambda>k. \<not> is_aware k) ks)"

definition sort_items :: "entry list \<Rightarrow> exn + entry list" where
  "sort_items all_items =
     (if mixed_keys (map sort_key_of all_items) then Inl TypeError
      else Inr (sort_key (\<lambda>x. - timeline_us (sort_key_of x)) all_items))"

text \<open>The sort and the truncation \<open>all_items[:MAX_ITEMS]\<close>.\<close>

definition aggregate :: "entry list \<Rightarrow> exn + entry list" where
  "aggregate all_items =
     (case sort_items all_items of
        Inl e \<Rightarrow> Inl e
      | Inr sorted_items \<Rightarrow> Inr (take MAX_ITEMS sorted_items))"

text \<open>
  The calls of \<open>format_date\<close> in the loop of \<open>generate_html\<close>, one for each item in order;
  the rest of the template interpolates escaped strings.
\<close>

fun date_labels :: "datetime \<Rightarrow> entry list \<Rightarrow> exn + pystr list" where
  "date_labels now [] = Inr []"
| "date_labels now (item # items) =
     (case format_date now (date item) of
        Inl e \<Rightarrow> Inl e
      | Inr date_str \<Rightarrow>
          (case date_labels now items of
             Inl e \<Rightarrow> Inl e
           | Inr rest \<Rightarrow> Inr (date_str # rest)))"

text \<open>
  \<open>main\<close> from the fetched texts to the rendered items: the items of the page and their
  date labels.
\<close>

definition main :: "stdlib \<Rightarrow> datetime \<Rightarrow> (feed \<times> pystr option) list \<Rightarrow> exn + (entry list \<times> pystr list)" where
  "main L now fetched_feeds =
     (case collect_items L fetched_feeds of
        Inl e \<Rightarrow> Inl e
      | Inr all_items \<Rightarrow>
          (case aggregate all_items of
             Inl e \<Rightarrow> Inl e
           | Inr items \<Rightarrow>
               (case date_labels now items of
                  Inl e \<Rightarrow> Inl e
                | Inr labels \<Rightarrow> Inr (items, labels))))"

section \<open>Notions of the specification\<close>

text \<open>
  \<open><feed\<close> occurs within the first 500 characters of the text: some occurrence lies
  wholly inside them.
\<close>

definition feed_within_500 :: "pystr \<Rightarrow> bool" where
  "feed_within_500 xml_text =
     (\<exists>i. i + 5 \<le> 500 \<and> i + 5 \<le> length xml_text \<and> take 5 (drop i xml_text) = str ''<feed'')"



text \<open>The month abbreviations of the C locale.\<close>

definition month_names :: "pystr list" where
  "month_names =
     [str ''Jan'', str ''Feb'', str ''Mar'', str ''Apr'', str ''May'', str ''Jun'',
      str ''Jul'', str ''Aug'', str ''Sep'', str ''Oct'', str ''Nov'', str ''Dec'']"

text \<open>
  The shape \<open>Mon DD, YYYY\<close>: a month abbreviation, a space, two digits, a comma and
  a space, four digits.
\<close>

definition absolute_shape :: "pystr \<Rightarrow> bool" where
  "absolute_shape s =
     (\<exists>mon dd yyyy. s = mon @ str '' '' @ dd @ str '', '' @ yyyy \<and> mon \<in> set month_names \<and>
        length dd = 2 \<and> list_all is_digit dd \<and> length yyyy = 4 \<and> list_all is_digit yyyy)"

text \<open>
  \<open>sub\<close> occurs in \<open>s\<close> at index \<open>i\<close>; \<open>i\<close> is the index of the first occurrence of \<open>sub\<close>
  in \<open>s\<close> at or after \<open>start\<close>; \<open>sub\<close> does not occur in \<open>s\<close> at or after \<open>start\<close>.
\<close>

definition occurs_at :: "pystr \<Rightarrow> pystr \<Rightarrow> nat \<Rightarrow> bool" where
  "occurs_at s sub i = (i + length sub \<le> length s \<and> take (length sub) (drop i s) = sub)"

definition first_occurrence :: "pystr \<Rightarrow> pystr \<Rightarrow> nat \<Rightarrow> nat \<Rightarrow> bool" where
  "first_occurrence s sub start i =
     (start \<le> i \<and> occurs_at s sub i \<and> (\<forall>j\<in>set [start..<i]. \<not> occurs_at s sub j))"

definition no_occurrence :: "pystr \<Rightarrow> pystr \<Rightarrow> nat \<Rightarrow> bool" where
  "no_occurrence s sub start = (\<forall>j\<in>set [start..<Suc (length s)]. \<not> occurs_at s sub j)"

text \<open>
  The three sources of an item's image: the \<open>url\<close> of the first Media-RSS \<open>content\<close>
  child, the \<open>url\<close> of the first \<open>enclosure\<close> child when the \<open>type\<close> of that child contains
  \<open>image\<close>, and the scan of the text of the first \<open>content:encoded\<close> child.
\<close>

definition media_url :: "element \<Rightarrow> pystr" where
  "media_url item =
     (case find_child item mrss_content of
        None \<Rightarrow> []
      | Some media \<Rightarrow> get_attr media (str ''url'') [])"

definition enclosure_image_url :: "element \<Rightarrow> pystr" where
  "enclosure_image_url item =
     (case find_child item (str ''enclosure'') of
        None \<Rightarrow> []
      | Some enclosure \<Rightarrow>
          if str_contains (str ''image'') (get_attr enclosure (str ''type'') [])
          then get_attr enclosure (str ''url'') [] else [])"

definition encoded_img_src :: "element \<Rightarrow> pystr" where
  "encoded_img_src item = scan_img (findtext item content_encoded [])"

text \<open>
  The link of an Atom entry: the \<open>href\<close> of the first \<open>link\<close> child with
  \<open>rel="alternate"\<close>, else of the first \<open>link\<close> child; empty when there is none.
\<close>

definition atom_link :: "element \<Rightarrow> pystr" where
  "atom_link entry =
     (case (case find_child_attr entry (atom ''link'') (str ''rel'') (str ''alternate'') of
              None \<Rightarrow> find_child entry (atom ''link'')
            | Some l \<Rightarrow> Some l) of
        None \<Rightarrow> []
      | Some l \<Rightarrow> get_attr l (str ''href'') [])"

text \<open>
  The date text as the specification words it: the text of the \<open>published\<close> child if
  present and non-empty, else the text of the \<open>updated\<close> child.
\<close>

definition atom_date_text_spec :: "element \<Rightarrow> pystr" where
  "atom_date_text_spec entry =
     (let published = findtext entry (atom ''published'') []
      in if published \<noteq> [] then published else findtext entry (atom ''updated'') [])"


section \<open>Sample data\<close>

text \<open>The entries of \<open>html.entities.html5\<close> for \<open>amp\<close>, \<open>lt\<close>, \<open>gt\<close>, \<open>quot\<close> and \<open>apos\<close>.\<close>

definition html5_sample :: "(pystr \<times> pystr) list" where
  "html5_sample =
     [(str ''amp;'', str ''&''), (str ''amp'', str ''&''), (str ''lt;'', str ''<''),
      (str ''lt'', str ''<''), (str ''gt;'', str ''>''), (str ''gt'', str ''>''),
      (str ''quot;'', [0x22]), (str ''quot'', [0x22]), (str ''apos;'', [0x27])]"

definition mk_datetime :: "int \<Rightarrow> int \<Rightarrow> int \<Rightarrow> int \<Rightarrow> int \<Rightarrow> int \<Rightarrow> int option \<Rightarrow> datetime" where
  "mk_datetime y m d h mi s off =
     \<lparr>year = y, month = m, day = d, hour = h, minute = mi, second = s, microsecond = 0,
      utcoffset = off\<rparr>"

text \<open>A render time, 2024-01-10 12:00:00 UTC, and dates before and after it.\<close>

definition now_sample :: datetime where
  "now_sample = mk_datetime 2024 1 10 12 0 0 (Some 0)"

definition dt_30h_before :: datetime where
  "dt_30h_before = mk_datetime 2024 1 9 6 0 0 (Some 0)"

definition dt_10min_before :: datetime where
  "dt_10min_before = mk_datetime 2024 1 10 11 50 0 (Some 0)"

definition dt_8d_before :: datetime where
  "dt_8d_before = mk_datetime 2024 1 2 12 0 0 (Some 0)"




text \<open>2024-01-01 00:00:00 without a zone, as both date parsers return it for a zoneless text.\<close>

definition dt_naive :: datetime where
  "dt_naive = mk_datetime 2024 1 1 0 0 0 None"

definition feed_sample :: feed where
  "feed_sample = \<lparr>name = str ''Sample'', url = str ''http://e/feed'', feed_category = str ''news''\<rparr>"

text \<open>
  An RSS text with one item whose \<open>pubDate\<close> is \<open>d\<close>, and the tree the parser builds for
  it.
\<close>

definition rss_text_with :: "string \<Rightarrow> pystr" where
  "rss_text_with d =
     str ''<rss><channel><item><title>T</title><link>http://e/1</link><pubDate>'' @ str d
     @ str ''</pubDate></item></channel></rss>''"

definition rss_item_with :: "string \<Rightarrow> element" where
  "rss_item_with d =
     Element (str ''item'') [] None
       [Element (str ''title'') [] (Some (str ''T'')) [],
        Element (str ''link'') [] (Some (str ''http://e/1'')) [],
        Element (str ''pubDate'') [] (Some (str d)) []]"

definition rss_tree_with :: "string \<Rightarrow> element" where
  "rss_tree_with d =
     Element (str ''rss'') [] None [Element (str ''channel'') [] None [rss_item_with d]]"

definition rss_text_naive :: pystr where
  "rss_text_naive = rss_text_with ''Mon, 01 Jan 2024 00:00:00 -0000''"

definition rss_text_utc :: pystr where
  "rss_text_utc = rss_text_with ''Mon, 01 Jan 2024 00:00:00 +0000''"

definition dt_utc :: datetime where
  "dt_utc = mk_datetime 2024 1 1 0 0 0 (Some 0)"

text \<open>
  A stand-in for the library that knows the texts of the examples only; on them it returns
  what the standard library returns, and it rejects every other text.
\<close>

definition lib_sample :: stdlib where
  "lib_sample =
     \<lparr>fromstring =
        (\<lambda>s. if s = rss_text_naive then Inr (rss_tree_with ''Mon, 01 Jan 2024 00:00:00 -0000'')
             else if s = rss_text_utc then Inr (rss_tree_with ''Mon, 01 Jan 2024 00:00:00 +0000'')
             else Inl ParseError),
      parsedate_to_datetime =
        (\<lambda>s. if s = str ''Mon, 01 Jan 2024 00:00:00 -0000'' then Inr dt_naive
             else if s = str ''Mon, 01 Jan 2024 00:00:00 +0000'' then Inr dt_utc
             else Inl ValueError),
      fromisoformat =
        (\<lambda>s. if s = str ''2024-01-01T00:00:00+00:00'' then Inr dt_utc
             else if s = str ''2024-01-01T00:00:00'' then Inr dt_naive
             else Inl ValueError),
      html5 = html5_sample\<rparr>"

definition item_media_enclosure :: element where
  "item_media_enclosure =
     Element (str ''item'') [] None
       [Element mrss_content [(str ''url'', str ''http://e/m.jpg'')] None [],
        Element (str ''enclosure'')
          [(str ''url'', str ''http://e/e.jpg''), (str ''type'', str ''image/jpeg'')] None []]"

definition item_media_no_url :: element where
  "item_media_no_url =
     Element (str ''item'') [] None
       [Element mrss_content [(str ''medium'', str ''image'')] None [],
        Element (str ''enclosure'')
          [(str ''url'', str ''http://e/e.jpg''), (str ''type'', str ''image/jpeg'')] None []]"

definition item_two_enclosures :: element where
  "item_two_enclosures =
     Element (str ''item'') [] None
       [Element (str ''enclosure'')
          [(str ''url'', str ''http://e/a.mp3''), (str ''type'', str ''audio/mpeg'')] None [],
        Element (str ''enclosure'')
          [(str ''url'', str ''http://e/b.jpg''), (str ''type'', str ''image/jpeg'')] None []]"

definition item_encoded :: element where
  "item_encoded =
     Element (str ''item'') [] None
       [Element content_encoded []
          (Some (str ''<p>Hello</p><img alt='' @ [0x22] @ str ''x'' @ [0x22] @ str '' src='' @ [0x22]
                 @ str ''http://e/c.jpg'' @ [0x22] @ str ''>'')) []]"

definition entry_blank_link :: element where
  "entry_blank_link =
     Element (atom ''entry'') [] None
       [Element (atom ''title'') [] (Some (str ''T'')) [],
        Element (atom ''link'') [(str ''href'', str '' '')] None []]"

definition entry_utc :: entry where
  "entry_utc =
     \<lparr>title = str ''T'', link = str ''http://e/1'', description = [], date = Some dt_utc,
      source = str ''Sample'', category = str ''news'', author = [], image_url = []\<rparr>"

definition item_without_title :: element where
  "item_without_title =
     Element (str ''item'') [] None
       [Element (str ''title'') [] (Some (str ''  '')) [],
        Element (str ''link'') [] (Some (str ''http://e/1'')) []]"

text \<open>An Atom entry with a title, a link and the given \<open>published\<close> and \<open>updated\<close> texts.\<close>

definition atom_node :: "string option \<Rightarrow> string option \<Rightarrow> element" where
  "atom_node published updated =
     Element (atom ''entry'') [] None
       ([Element (atom ''title'') [] (Some (str ''T'')) [],
         Element (atom ''link'') [(str ''href'', str ''http://e/1'')] None []]
        @ (case published of None \<Rightarrow> [] | Some p \<Rightarrow> [Element (atom ''published'') [] (Some (str p)) []])
        @ (case updated of None \<Rightarrow> [] | Some u \<Rightarrow> [Element (atom ''updated'') [] (Some (str u)) []]))"

definition atom_result :: "datetime option \<Rightarrow> entry" where
  "atom_result d =
     \<lparr>title = str ''T'', link = str ''http://e/1'', description = [], date = d,
      source = str ''Sample'', category = str ''news'', author = [], image_url = []\<rparr>"

text \<open>An entry with the given title and date.\<close>

definition sample_entry :: "string \<Rightarrow> datetime option \<Rightarrow> entry" where
  "sample_entry t d =
     \<lparr>title = str t, link = str ''http://e/1'', description = [], date = d,
      source = str ''Sample'', category = str ''news'', author = [], image_url = []\<rparr>"

text \<open>
  An Atom entry with a title, a link, a \<open>published\<close> text that is not a date, and a
  summary that is a decimal character reference of 4301 digits.
\<close>

definition atom_node_long_summary :: element where
  "atom_node_long_summary =
     Element (atom ''entry'') [] None
       [Element (atom ''title'') [] (Some (str ''T'')) [],
        Element (atom ''link'') [(str ''href'', str ''http://e/1'')] None [],
        Element (atom ''summary'') [] (Some (str ''&#'' @ replicate 4301 0x31 @ str '';'')) [],
        Element (atom ''published'') [] (Some (str ''next week'')) []]"

section \<open>Unfolding rules for the examples\<close>

lemmas dt_eval = mk_datetime_def sub_datetime_def is_aware_def timeline_us_def local_us_def
  toordinal_def days_before_year_def days_before_month_def is_leap_def td_of_us_def
  mk_timedelta_def

lemmas str_eval = strip_def lstrip_def rstrip_def isspace_def


lemmas xml_eval = find_child_def findtext_def get_attr_def find_child_attr_def
  find_grandchild_def findall_children_def findall_descendants_def atom_def
  mrss_content_def content_encoded_def dc_creator_def atom_summary_def

lemmas sample_eval = lib_sample_def rss_text_naive_def rss_text_utc_def rss_text_with_def
  rss_tree_with_def rss_item_with_def feed_sample_def dt_utc_def dt_naive_def now_sample_def


section \<open>The order of the aggregate\<close>












section \<open>Truncation\<close>













section \<open>Entries have a title and a link\<close>

lemma rss_item_result:
  assumes "rss_item L sn sc item = Inr r"
  shows "(r \<noteq> None \<longleftrightarrow>
            strip (findtext item (str ''title'') []) \<noteq> [] \<and>
            strip (findtext item (str ''link'') []) \<noteq> [])"
    and "r = Some e \<Longrightarrow>
            title e = strip (findtext item (str ''title'') []) \<and>
            link e = strip (findtext item (str ''link'') [])"
  using assms by (auto simp: rss_item_def Let_def split: sum.splits if_splits)

lemma atom_entry_result:
  assumes "atom_entry L sn sc node = Inr r"
  shows "(r \<noteq> None \<longleftrightarrow>
            strip (findtext node (atom ''title'') []) \<noteq> [] \<and> atom_link node \<noteq> [])"
    and "r = Some e \<Longrightarrow>
            title e = strip (findtext node (atom ''title'') []) \<and> link e = atom_link node"
  using assms by (auto simp: atom_entry_def atom_link_def Let_def split: sum.splits if_splits)

lemma parse_nodes_all:
  assumes "\<And>x e. f x = Inr (Some e) \<Longrightarrow> P e" and "parse_nodes f xs = Inr es"
  shows "\<forall>e\<in>set es. P e"
  using assms(2)
proof (induction xs arbitrary: es)
  case Nil
  then show ?case by simp
next
  case (Cons x xs)
  then show ?case
    by (auto split: sum.splits option.splits dest: assms(1))
qed

lemma parse_rss_all:
  assumes "parse_rss L t sn sc = Inr es"
  shows "\<forall>e\<in>set es. title e \<noteq> [] \<and> link e \<noteq> []"
proof (cases "fromstring L t")
  case (Inl err)
  with assms show ?thesis by (simp add: parse_rss_def split: if_splits)
next
  case (Inr root)
  with assms have "parse_nodes (rss_item L sn sc) (findall_descendants root (str ''item'')) = Inr es"
    by (simp add: parse_rss_def)
  moreover have "title e \<noteq> [] \<and> link e \<noteq> []" if "rss_item L sn sc x = Inr (Some e)" for x e
    using rss_item_result [OF that] by auto
  ultimately show ?thesis by (rule parse_nodes_all [rotated])
qed

lemma parse_atom_all:
  assumes "parse_atom L t sn sc = Inr es"
  shows "\<forall>e\<in>set es. title e \<noteq> [] \<and> link e \<noteq> []"
proof (cases "fromstring L t")
  case (Inl err)
  with assms show ?thesis by (simp add: parse_atom_def split: if_splits)
next
  case (Inr root)
  with assms have "parse_nodes (atom_entry L sn sc) (findall_children root (atom ''entry'')) = Inr es"
    by (simp add: parse_atom_def)
  moreover have "title e \<noteq> [] \<and> link e \<noteq> []" if "atom_entry L sn sc x = Inr (Some e)" for x e
    using atom_entry_result [OF that] by auto
  ultimately show ?thesis by (rule parse_nodes_all [rotated])
qed

lemma process_feed_all:
  assumes "process_feed L f fetched = Inr es"
  shows "\<forall>e\<in>set es. title e \<noteq> [] \<and> link e \<noteq> []"
  using assms parse_rss_all parse_atom_all
  by (auto simp: process_feed_def split: option.splits if_splits)

lemma collect_items_all:
  assumes "collect_items L ffs = Inr es"
  shows "\<forall>e\<in>set es. title e \<noteq> [] \<and> link e \<noteq> []"
  using assms
proof (induction ffs arbitrary: es)
  case Nil
  then show ?case by simp
next
  case (Cons a ffs)
  obtain f fetched where a: "a = (f, fetched)" by (cases a)
  from Cons.prems obtain items others where
    p: "process_feed L f fetched = Inr items" and c: "collect_items L ffs = Inr others"
    and es: "es = items @ others"
    by (auto simp: a split: sum.splits)
  from process_feed_all [OF p] Cons.IH [OF c] show ?case by (auto simp: es)
qed

lemma sort_items_set: "sort_items xs = Inr ys \<Longrightarrow> set ys = set xs"
  by (auto simp: sort_items_def split: if_splits)

lemma aggregate_subset: "aggregate xs = Inr ys \<Longrightarrow> set ys \<subseteq> set xs"
  by (auto simp: aggregate_def split: sum.splits dest: sort_items_set in_set_takeD)

lemma main_items:
  assumes "main L now ffs = Inr (items, labels)"
  shows "\<exists>all_items. collect_items L ffs = Inr all_items \<and> aggregate all_items = Inr items \<and>
           date_labels now items = Inr labels"
  using assms by (auto simp: main_def split: sum.splits)

text \<open>
  C3, as amended. The RSS normalizer produces an entry for an item exactly when the
  trimmed text of its \<open>title\<close> child and the trimmed text of its \<open>link\<close> child are both
  non-empty; the Atom normalizer exactly when the trimmed title text and the \<open>href\<close> of
  the link, taken as it is, are both non-empty. These are the title and link of the entry.
  Hence every entry that a parser returns, and every item of the page, has a non-empty
  title and a non-empty link.
\<close>

theorem entries_have_title_and_link:
  "(rss_item L sn sc item = Inr r \<longrightarrow>
      (r \<noteq> None \<longleftrightarrow>
         strip (findtext item (str ''title'') []) \<noteq> [] \<and>
         strip (findtext item (str ''link'') []) \<noteq> [])) \<and>
   (rss_item L sn sc item = Inr (Some e) \<longrightarrow>
      title e = strip (findtext item (str ''title'') []) \<and>
      link e = strip (findtext item (str ''link'') [])) \<and>
   (atom_entry L sn sc node = Inr r' \<longrightarrow>
      (r' \<noteq> None \<longleftrightarrow>
         strip (findtext node (atom ''title'') []) \<noteq> [] \<and> atom_link node \<noteq> [])) \<and>
   (atom_entry L sn sc node = Inr (Some e') \<longrightarrow>
      title e' = strip (findtext node (atom ''title'') []) \<and> link e' = atom_link node) \<and>
   (parse_rss L t sn sc = Inr es \<longrightarrow> (\<forall>x\<in>set es. title x \<noteq> [] \<and> link x \<noteq> [])) \<and>
   (parse_atom L t sn sc = Inr es' \<longrightarrow> (\<forall>x\<in>set es'. title x \<noteq> [] \<and> link x \<noteq> [])) \<and>
   (main L now ffs = Inr (items, labels) \<longrightarrow> (\<forall>x\<in>set items. title x \<noteq> [] \<and> link x \<noteq> []))"
proof (intro conjI impI)
  show "(r \<noteq> None) = (strip (findtext item (str ''title'') []) \<noteq> [] \<and>
      strip (findtext item (str ''link'') []) \<noteq> [])"
    if "rss_item L sn sc item = Inr r" using rss_item_result(1) [OF that] .
  show "title e = strip (findtext item (str ''title'') [])"
    "link e = strip (findtext item (str ''link'') [])"
    if "rss_item L sn sc item = Inr (Some e)" using rss_item_result(2) [OF that] by simp_all
  show "(r' \<noteq> None) = (strip (findtext node (atom ''title'') []) \<noteq> [] \<and> atom_link node \<noteq> [])"
    if "atom_entry L sn sc node = Inr r'" using atom_entry_result(1) [OF that] .
  show "title e' = strip (findtext node (atom ''title'') [])" "link e' = atom_link node"
    if "atom_entry L sn sc node = Inr (Some e')" using atom_entry_result(2) [OF that] by simp_all
  show "\<forall>x\<in>set es. title x \<noteq> [] \<and> link x \<noteq> []" if "parse_rss L t sn sc = Inr es"
    using that by (rule parse_rss_all)
  show "\<forall>x\<in>set es'. title x \<noteq> [] \<and> link x \<noteq> []" if "parse_atom L t sn sc = Inr es'"
    using that by (rule parse_atom_all)
  show "\<forall>x\<in>set items. title x \<noteq> [] \<and> link x \<noteq> []" if "main L now ffs = Inr (items, labels)"
  proof -
    from main_items [OF that] obtain all_items where
      c: "collect_items L ffs = Inr all_items" and a: "aggregate all_items = Inr items" by blast
    from collect_items_all [OF c] aggregate_subset [OF a] show ?thesis by blast
  qed
qed

lemma rss_item_utc:
  "rss_item lib_sample (str ''Sample'') (str ''news'')
     (rss_item_with ''Mon, 01 Jan 2024 00:00:00 +0000'') = Inr (Some entry_utc)"
  by (simp add: rss_item_def rss_image_def scan_img_def try_parse_date_def entry_utc_def
      xml_eval str_eval sample_eval strip_html_def unescape_def Let_def)

lemma parse_rss_utc:
  "parse_rss lib_sample rss_text_utc (str ''Sample'') (str ''news'') = Inr [entry_utc]"
proof -
  have "fromstring lib_sample rss_text_utc = Inr (rss_tree_with ''Mon, 01 Jan 2024 00:00:00 +0000'')"
    by (simp add: lib_sample_def rss_text_utc_def rss_text_naive_def rss_text_with_def)
  moreover have "findall_descendants (rss_tree_with ''Mon, 01 Jan 2024 00:00:00 +0000'') (str ''item'')
      = [rss_item_with ''Mon, 01 Jan 2024 00:00:00 +0000'']"
    by (simp add: findall_descendants_def rss_tree_with_def rss_item_with_def)
  ultimately show ?thesis
    by (simp add: parse_rss_def rss_item_utc [simplified])
qed

lemma not_atom_rss_text: "\<not> is_atom rss_text_utc" "\<not> is_atom rss_text_naive"
  by (simp_all add: is_atom_def rss_text_utc_def rss_text_naive_def rss_text_with_def)

lemma collect_utc:
  "collect_items lib_sample [(feed_sample, Some rss_text_utc)] = Inr [entry_utc]"
  using not_atom_rss_text(1)
  by (simp add: process_feed_def feed_sample_def parse_rss_utc [simplified])

lemma aggregate_single: "aggregate [x] = Inr [x]"
  by (simp add: aggregate_def sort_items_def mixed_keys_def MAX_ITEMS_def)

lemma main_utc:
  "main lib_sample now_sample [(feed_sample, Some rss_text_utc)] =
     Inr ([entry_utc], [str ''Jan 01, 2024''])"
proof -
  have "format_date now_sample (Some dt_utc) = Inr (str ''Jan 01, 2024'')"
    by (simp add: format_date_def now_sample_def dt_utc_def dt_eval strftime_b_d_Y_def
        month_abbr_def pad2_def show_int_def show_nat.simps)
  then have "date_labels now_sample [entry_utc] = Inr [str ''Jan 01, 2024'']"
    by (simp add: entry_utc_def)
  then show ?thesis
    by (simp add: main_def collect_utc [simplified] aggregate_single)
qed

theorem entries_have_title_and_link_witness:
  "rss_item lib_sample (str ''Sample'') (str ''news'') item_without_title = Inr None \<and>
   strip (findtext item_without_title (str ''title'') []) = [] \<and>
   rss_item lib_sample (str ''Sample'') (str ''news'')
     (rss_item_with ''Mon, 01 Jan 2024 00:00:00 +0000'') = Inr (Some entry_utc) \<and>
   main lib_sample now_sample [(feed_sample, Some rss_text_utc)] =
     Inr ([entry_utc], [str ''Jan 01, 2024'']) \<and>
   title entry_utc \<noteq> [] \<and> link entry_utc \<noteq> []"
proof -
  have a: "rss_item lib_sample (str ''Sample'') (str ''news'') item_without_title = Inr None"
    by (simp add: rss_item_def rss_image_def scan_img_def item_without_title_def
        xml_eval str_eval sample_eval strip_html_def unescape_def Let_def find_from_def)
  have b: "strip (findtext item_without_title (str ''title'') []) = []"
    using a entries_have_title_and_link [where L = lib_sample and sn = "str ''Sample''"
        and sc = "str ''news''" and item = item_without_title and r = None, THEN conjunct1]
    by (simp add: item_without_title_def xml_eval str_eval)
  have c: "\<forall>x\<in>set [entry_utc]. title x \<noteq> [] \<and> link x \<noteq> []"
    using main_utc entries_have_title_and_link [where L = lib_sample and now = now_sample
        and ffs = "[(feed_sample, Some rss_text_utc)]" and items = "[entry_utc]"
        and labels = "[str ''Jan 01, 2024'']"]
    by blast
  from a b c rss_item_utc main_utc show ?thesis by simp
qed

lemma atom_entry_blank:
  "atom_entry lib_sample (str ''Sample'') (str ''news'') entry_blank_link =
     Inr (Some \<lparr>title = str ''T'', link = str '' '', description = [], date = None,
        source = str ''Sample'', category = str ''news'', author = [], image_url = []\<rparr>)"
  by (simp add: atom_entry_def atom_date_str_def atom_pub_date_def entry_blank_link_def
      xml_eval str_eval sample_eval strip_html_def unescape_def Let_def)

text \<open>
  The claim as stated fails for Atom: the \<open>href\<close> is not trimmed, so an entry whose link
  is a single space is produced, and its link is empty after trimming.
\<close>

theorem blank_atom_link_counterexample:
  "atom_entry lib_sample (str ''Sample'') (str ''news'') entry_blank_link =
     Inr (Some \<lparr>title = str ''T'', link = str '' '', description = [], date = None,
        source = str ''Sample'', category = str ''news'', author = [], image_url = []\<rparr>) \<and>
   strip (str '' '') = []"
  using atom_entry_blank by (simp add: str_eval)

section \<open>The HTML stripper and character references\<close>









lemma remove_tags_plain: "0x3C \<notin> set s \<Longrightarrow> 0x3E \<notin> set s \<Longrightarrow> remove_tags False s = s"
  by (induction s) auto

lemma sub_charref_id: "0x26 \<notin> set s \<Longrightarrow> sub_charref T 0 s = Inr s"
  by (induction s) auto

lemma unescape_sub: "unescape T s = sub_charref T 0 s"
  by (simp add: unescape_def sub_charref_id)

lemma sub_charref_skip: "sub_charref T (length m) (m @ b) = sub_charref T 0 b"
  by (induction m) auto

lemma sub_charref_match:
  assumes "0x26 \<notin> set a" and "match_charref (m @ b) = Some m"
  shows "unescape T (a @ 0x26 # m @ b) =
     (case replace_charref T m of
        Inl e \<Rightarrow> Inl e
      | Inr r \<Rightarrow> (case unescape T b of Inl e \<Rightarrow> Inl e | Inr u \<Rightarrow> Inr (a @ r @ u)))"
  using assms(1)
proof (induction a)
  case Nil
  show ?case using assms(2) by (simp add: unescape_sub sub_charref_skip split: sum.splits)
next
  case (Cons c a)
  then show ?case by (simp add: unescape_sub split: sum.splits)
qed





lemma takeWhile_all: "list_all P xs \<Longrightarrow> \<not> P y \<Longrightarrow> takeWhile P (xs @ y # ys) = xs"
  by (induction xs) auto



lemma match_decimal:
  assumes "ds \<noteq> []" "list_all is_digit ds"
  shows "match_charref ((0x23 # ds @ [0x3B]) @ b) = Some (0x23 # ds @ [0x3B])"
proof -
  have semi: "\<not> is_digit 0x3B" by (simp add: is_digit_def)
  have tw: "takeWhile is_digit (ds @ 0x3B # b) = ds"
    using assms(2) semi by (rule takeWhile_all)
  show ?thesis
    using assms(1) by (simp add: match_charref_def tw opt_semicolon_def)
qed


lemma replace_decimal_digits:
  assumes "ds \<noteq> []" "list_all is_digit ds"
  shows "replace_charref T (0x23 # ds @ [0x3B]) =
     (case int_of_digits 10 ds of
        Inl e \<Rightarrow> Inl e
      | Inr num \<Rightarrow>
          Inr (case map_of invalid_charrefs num of
                 Some c \<Rightarrow> [c]
               | None \<Rightarrow>
                   if (0xD800 \<le> num \<and> num \<le> 0xDFFF) \<or> num > 0x10FFFF then [0xFFFD]
                   else if invalid_codepoint num then []
                   else [num]))"
proof -
  obtain d r where ds: "ds = d # r" using assms(1) by (cases ds) auto
  with assms(2) have d: "d \<noteq> 0x78" "d \<noteq> 0x58" by (auto simp: is_digit_def)
  have semi: "\<not> is_digit 0x3B" by (simp add: is_digit_def)
  have tw: "takeWhile is_digit (ds @ [0x3B]) = ds"
    using assms(2) semi by (rule takeWhile_all)
  have h1: "hd (0x23 # ds @ [0x3B]) = 0x23" by simp
  have h2: "(0x23 # ds @ [0x3B]) ! 1 = d" by (simp add: ds)
  have h3: "drop 1 (0x23 # ds @ [0x3B]) = ds @ [0x3B]" by simp
  show ?thesis
    unfolding replace_charref_def h1 h2 h3 tw
    using d by simp
qed


lemma replace_decimal_long:
  assumes "ds \<noteq> []" "list_all is_digit ds" "max_str_digits < length ds"
  shows "replace_charref T (0x23 # ds @ [0x3B]) = Inl ValueError"
  unfolding replace_decimal_digits [OF assms(1,2)] int_of_digits_def
  using assms(3) by simp





section \<open>A date without a zone\<close>

lemma rss_item_naive:
  "rss_item lib_sample (str ''Sample'') (str ''news'')
     (rss_item_with ''Mon, 01 Jan 2024 00:00:00 -0000'') =
   Inr (Some (sample_entry ''T'' (Some dt_naive)))"
  by (simp add: rss_item_def rss_image_def scan_img_def try_parse_date_def sample_entry_def
      xml_eval str_eval sample_eval strip_html_def unescape_def Let_def)

lemma parse_rss_naive:
  "parse_rss lib_sample rss_text_naive (str ''Sample'') (str ''news'') =
     Inr [sample_entry ''T'' (Some dt_naive)]"
proof -
  have "fromstring lib_sample rss_text_naive = Inr (rss_tree_with ''Mon, 01 Jan 2024 00:00:00 -0000'')"
    by (simp add: lib_sample_def)
  moreover have "findall_descendants (rss_tree_with ''Mon, 01 Jan 2024 00:00:00 -0000'') (str ''item'')
      = [rss_item_with ''Mon, 01 Jan 2024 00:00:00 -0000'']"
    by (simp add: findall_descendants_def rss_tree_with_def rss_item_with_def)
  ultimately show ?thesis
    using rss_item_naive by (simp add: parse_rss_def)
qed

lemma collect_naive:
  "collect_items lib_sample [(feed_sample, Some rss_text_naive)] =
     Inr [sample_entry ''T'' (Some dt_naive)]"
proof -
  have "\<not> is_atom rss_text_naive"
    by (simp add: is_atom_def rss_text_naive_def rss_text_with_def)
  then show ?thesis
    using parse_rss_naive by (simp add: process_feed_def feed_sample_def)
qed

lemma format_date_naive: "format_date now_sample (Some dt_naive) = Inl TypeError"
  by (simp add: format_date_def sub_datetime_def is_aware_def now_sample_def dt_naive_def
      mk_datetime_def)

text \<open>
  C5. A fetched RSS text whose only item has a \<open>pubDate\<close> with the zone \<open>-0000\<close>: the date
  is naive, and the run ends with \<open>TypeError\<close> when the date label is computed. Next to an
  undated item, already the sort ends with \<open>TypeError\<close>.
\<close>

theorem naive_date_aborts_run:
  "main lib_sample now_sample [(feed_sample, Some rss_text_naive)] = Inl TypeError \<and>
   sort_items [sample_entry ''A'' (Some dt_naive), sample_entry ''B'' None] = Inl TypeError \<and>
   format_date now_sample (Some dt_naive) = Inl TypeError"
proof -
  have "aggregate [sample_entry ''T'' (Some dt_naive)] = Inr [sample_entry ''T'' (Some dt_naive)]"
    by (simp add: aggregate_def sort_items_def mixed_keys_def MAX_ITEMS_def)
  moreover have "date_labels now_sample [sample_entry ''T'' (Some dt_naive)] = Inl TypeError"
    using format_date_naive by (simp add: sample_entry_def)
  ultimately have "main lib_sample now_sample [(feed_sample, Some rss_text_naive)] = Inl TypeError"
    using collect_naive by (simp add: main_def)
  moreover have "sort_items [sample_entry ''A'' (Some dt_naive), sample_entry ''B'' None] = Inl TypeError"
    by (simp add: sort_items_def mixed_keys_def sort_key_of_def sample_entry_def dt_naive_def
        datetime_min_utc_def mk_datetime_def is_aware_def)
  ultimately show ?thesis using format_date_naive by simp
qed

section \<open>Date labels\<close>

lemma show_nat_digits: "list_all is_digit (show_nat n)"
proof (induction n rule: show_nat.induct)
  case (1 n)
  show ?case
  proof (cases "n < 10")
    case True
    then show ?thesis by (subst show_nat.simps) (simp add: is_digit_def)
  next
    case False
    with 1 have "list_all is_digit (show_nat (n div 10))" by simp
    moreover have "n mod 10 < 10" by simp
    ultimately show ?thesis using False
      by (subst show_nat.simps) (simp add: is_digit_def)
  qed
qed

lemma show_nat_1: "n < 10 \<Longrightarrow> length (show_nat n) = 1"
  by (subst show_nat.simps) simp

lemma show_nat_2: "10 \<le> n \<Longrightarrow> n < 100 \<Longrightarrow> length (show_nat n) = 2"
  by (subst show_nat.simps) (simp add: show_nat_1)

lemma show_nat_3: "100 \<le> n \<Longrightarrow> n < 1000 \<Longrightarrow> length (show_nat n) = 3"
  by (subst show_nat.simps) (simp add: show_nat_2)

lemma show_nat_4: "1000 \<le> n \<Longrightarrow> n < 10000 \<Longrightarrow> length (show_nat n) = 4"
  by (subst show_nat.simps) (simp add: show_nat_3)

lemma pad2_shape: "1 \<le> d \<Longrightarrow> d \<le> 31 \<Longrightarrow> length (pad2 d) = 2 \<and> list_all is_digit (pad2 d)"
  by (cases "d < 10") (auto simp: pad2_def show_int_def show_nat_1 show_nat_2 show_nat_digits is_digit_def)

lemma year_shape:
  "1000 \<le> y \<Longrightarrow> y \<le> 9999 \<Longrightarrow> length (show_int y) = 4 \<and> list_all is_digit (show_int y)"
  by (simp add: show_int_def show_nat_4 show_nat_digits)

lemma month_abbr_shape: "1 \<le> m \<Longrightarrow> m \<le> 12 \<Longrightarrow> month_abbr m \<in> set month_names"
proof -
  assume "1 \<le> m" "m \<le> 12"
  then have "nat (m - 1) < length month_names" by (simp add: month_names_def)
  then have "month_names ! nat (m - 1) \<in> set month_names" by (rule nth_mem)
  then show ?thesis by (simp only: month_abbr_def month_names_def)
qed

lemma days_in_month_le: "days_in_month y m \<le> 31"
  by (simp add: days_in_month_def)

lemma strftime_shape:
  assumes "valid_datetime dt" "1000 \<le> year dt"
  shows "absolute_shape (strftime_b_d_Y dt)"
proof -
  from assms have m: "1 \<le> month dt" "month dt \<le> 12" and d: "1 \<le> day dt" "day dt \<le> 31"
    and y: "year dt \<le> 9999"
    using days_in_month_le [of "year dt" "month dt"] by (auto simp: valid_datetime_def)
  show ?thesis
    unfolding absolute_shape_def strftime_b_d_Y_def
    using month_abbr_shape [OF m] pad2_shape [OF d] year_shape [OF assms(2) y] by blast
qed

text \<open>
  C6, as amended. At a render time \<open>now\<close>, a date exactly 30 hours earlier is labelled
  \<open>yesterday\<close>, one exactly 10 minutes earlier \<open>10m ago\<close>, and one exactly 8 days earlier
  by \<open>strftime("%b %d, %Y")\<close>, which for a year of four digits has the shape
  \<open>Mon DD, YYYY\<close>.
\<close>

theorem format_date_examples:
  "(sub_datetime now dt = Inr (mk_timedelta 0 (30 * 3600) 0) \<longrightarrow>
      format_date now (Some dt) = Inr (str ''yesterday'')) \<and>
   (sub_datetime now dt = Inr (mk_timedelta 0 (10 * 60) 0) \<longrightarrow>
      format_date now (Some dt) = Inr (str ''10m ago'')) \<and>
   (sub_datetime now dt = Inr (mk_timedelta 8 0 0) \<longrightarrow>
      format_date now (Some dt) = Inr (strftime_b_d_Y dt) \<and>
      (valid_datetime dt \<and> 1000 \<le> year dt \<longrightarrow> absolute_shape (strftime_b_d_Y dt)))"
proof (intro conjI impI)
  assume "sub_datetime now dt = Inr (mk_timedelta 0 (30 * 3600) 0)"
  then show "format_date now (Some dt) = Inr (str ''yesterday'')"
    by (simp add: format_date_def mk_timedelta_def td_of_us_def)
next
  assume "sub_datetime now dt = Inr (mk_timedelta 0 (10 * 60) 0)"
  then show "format_date now (Some dt) = Inr (str ''10m ago'')"
    by (simp add: format_date_def mk_timedelta_def td_of_us_def show_int_def show_nat.simps)
next
  assume "sub_datetime now dt = Inr (mk_timedelta 8 0 0)"
  then show "format_date now (Some dt) = Inr (strftime_b_d_Y dt)"
    by (simp add: format_date_def mk_timedelta_def td_of_us_def)
next
  assume "valid_datetime dt \<and> 1000 \<le> year dt"
  then show "absolute_shape (strftime_b_d_Y dt)" by (simp add: strftime_shape)
qed

theorem format_date_examples_witness:
  "format_date now_sample (Some dt_30h_before) = Inr (str ''yesterday'') \<and>
   format_date now_sample (Some dt_10min_before) = Inr (str ''10m ago'') \<and>
   format_date now_sample (Some dt_8d_before) = Inr (str ''Jan 02, 2024'') \<and>
   absolute_shape (str ''Jan 02, 2024'')"
proof -
  have a: "sub_datetime now_sample dt_30h_before = Inr (mk_timedelta 0 (30 * 3600) 0)"
    by (simp add: now_sample_def dt_30h_before_def dt_eval)
  have b: "sub_datetime now_sample dt_10min_before = Inr (mk_timedelta 0 (10 * 60) 0)"
    by (simp add: now_sample_def dt_10min_before_def dt_eval)
  have c: "sub_datetime now_sample dt_8d_before = Inr (mk_timedelta 8 0 0)"
    by (simp add: now_sample_def dt_8d_before_def dt_eval)
  have v: "valid_datetime dt_8d_before \<and> 1000 \<le> year dt_8d_before"
    by (simp add: dt_8d_before_def mk_datetime_def valid_datetime_def days_in_month_def)
  have s: "strftime_b_d_Y dt_8d_before = str ''Jan 02, 2024''"
    by (simp add: dt_8d_before_def mk_datetime_def strftime_b_d_Y_def month_abbr_def pad2_def
        show_int_def show_nat.simps)
  show ?thesis
    using a b c v format_date_examples [of now_sample dt_30h_before]
      format_date_examples [of now_sample dt_10min_before]
      format_date_examples [of now_sample dt_8d_before]
    unfolding s by blast
qed

text \<open>
  The claim as stated fails: the label of a date 30 hours before the render time is
  \<open>yesterday\<close>, not \<open>1d ago\<close>.
\<close>

theorem thirty_hours_counterexample:
  "sub_datetime now_sample dt_30h_before = Inr (mk_timedelta 0 (30 * 3600) 0) \<and>
   format_date now_sample (Some dt_30h_before) = Inr (str ''yesterday'') \<and>
   format_date now_sample (Some dt_30h_before) \<noteq> Inr (str ''1d ago'')"
  by (simp add: format_date_def now_sample_def dt_30h_before_def dt_eval)

section \<open>Image extraction\<close>

lemma occurs_at_Cons: "occurs_at (c # cs) sub (Suc j) = occurs_at cs sub j"
  by (simp add: occurs_at_def)

lemma occurs_at_0: "occurs_at xs sub 0 = (take (length sub) xs = sub)"
proof -
  have "length sub \<le> length xs" if "take (length sub) xs = sub"
  proof -
    have "length (take (length sub) xs) = length sub" by (simp only: that)
    then show ?thesis by (simp add: min_def split: if_splits)
  qed
  then show ?thesis by (auto simp: occurs_at_def)
qed

lemma occurs_at_Nil: "occurs_at [] sub j = (j = 0 \<and> sub = [])"
  by (auto simp: occurs_at_def)

lemma find_at_Some_iff:
  "find_at sub xs k = Some i \<longleftrightarrow>
     k \<le> i \<and> occurs_at xs sub (i - k) \<and> (\<forall>j<i - k. \<not> occurs_at xs sub j)"
proof (induction xs arbitrary: k)
  case Nil
  show ?case by (auto simp: occurs_at_Nil)
next
  case (Cons c cs)
  show ?case
  proof (cases "occurs_at (c # cs) sub 0")
    case True
    then have f: "find_at sub (c # cs) k = Some k" by (simp add: occurs_at_0)
    show ?thesis
    proof
      assume "find_at sub (c # cs) k = Some i"
      with f have "i = k" by simp
      with True show "k \<le> i \<and> occurs_at (c # cs) sub (i - k) \<and> (\<forall>j<i - k. \<not> occurs_at (c # cs) sub j)"
        by simp
    next
      assume r: "k \<le> i \<and> occurs_at (c # cs) sub (i - k) \<and> (\<forall>j<i - k. \<not> occurs_at (c # cs) sub j)"
      have "i - k = 0"
      proof (rule ccontr)
        assume "i - k \<noteq> 0"
        then have "0 < i - k" by simp
        with r have "\<not> occurs_at (c # cs) sub 0" by blast
        with True show False by simp
      qed
      with r have "i = k" by simp
      with f show "find_at sub (c # cs) k = Some i" by simp
    qed
  next
    case False
    then have f: "find_at sub (c # cs) k = find_at sub cs (Suc k)" by (simp add: occurs_at_0)
    show ?thesis
    proof
      assume "find_at sub (c # cs) k = Some i"
      with f Cons.IH [of "Suc k"] have ih: "Suc k \<le> i" "occurs_at cs sub (i - Suc k)"
        "\<forall>j<i - Suc k. \<not> occurs_at cs sub j" by simp_all
      from ih(1) have d: "i - k = Suc (i - Suc k)" by simp
      have "\<not> occurs_at (c # cs) sub j" if "j < i - k" for j
      proof (cases j)
        case 0
        with False show ?thesis by simp
      next
        case (Suc j')
        with that d have "j' < i - Suc k" by simp
        with ih(3) Suc show ?thesis by (simp add: occurs_at_Cons)
      qed
      with ih(1,2) d show "k \<le> i \<and> occurs_at (c # cs) sub (i - k) \<and> (\<forall>j<i - k. \<not> occurs_at (c # cs) sub j)"
        by (simp add: occurs_at_Cons)
    next
      assume r: "k \<le> i \<and> occurs_at (c # cs) sub (i - k) \<and> (\<forall>j<i - k. \<not> occurs_at (c # cs) sub j)"
      with False have "i - k \<noteq> 0" by auto
      then obtain n where n: "i - k = Suc n" by (cases "i - k") auto
      then have k: "Suc k \<le> i" and n': "i - Suc k = n" by simp_all
      from r n have "occurs_at cs sub n" by (simp add: occurs_at_Cons)
      moreover have "\<not> occurs_at cs sub j" if "j < n" for j
      proof -
        from that n have "Suc j < i - k" by simp
        with r have "\<not> occurs_at (c # cs) sub (Suc j)" by blast
        then show ?thesis by (simp add: occurs_at_Cons)
      qed
      ultimately have "find_at sub cs (Suc k) = Some i"
        using k n' Cons.IH [of "Suc k"] by simp
      with f show "find_at sub (c # cs) k = Some i" by simp
    qed
  qed
qed

lemma find_at_None_iff: "find_at sub xs k = None \<longleftrightarrow> (\<forall>j. \<not> occurs_at xs sub j)"
proof (induction xs arbitrary: k)
  case Nil
  show ?case by (auto simp: occurs_at_Nil)
next
  case (Cons c cs)
  show ?case
  proof (cases "occurs_at (c # cs) sub 0")
    case True
    then have "find_at sub (c # cs) k = Some k" by (simp add: occurs_at_0)
    with True show ?thesis by auto
  next
    case False
    then have f: "find_at sub (c # cs) k = find_at sub cs (Suc k)" by (simp add: occurs_at_0)
    have "(\<forall>j. \<not> occurs_at (c # cs) sub j) \<longleftrightarrow> (\<forall>j. \<not> occurs_at cs sub j)"
    proof
      assume a: "\<forall>j. \<not> occurs_at (c # cs) sub j"
      show "\<forall>j. \<not> occurs_at cs sub j"
      proof
        fix j from a have "\<not> occurs_at (c # cs) sub (Suc j)" by blast
        then show "\<not> occurs_at cs sub j" by (simp add: occurs_at_Cons)
      qed
    next
      assume a: "\<forall>j. \<not> occurs_at cs sub j"
      show "\<forall>j. \<not> occurs_at (c # cs) sub j"
      proof
        fix j show "\<not> occurs_at (c # cs) sub j"
          using False a by (cases j) (simp_all add: occurs_at_Cons)
      qed
    qed
    with f Cons.IH [of "Suc k"] show ?thesis by simp
  qed
qed

lemma occurs_at_drop:
  "start \<le> length s \<Longrightarrow> occurs_at (drop start s) sub j = occurs_at s sub (start + j)"
  by (auto simp: occurs_at_def add.commute)

lemma occurs_at_bound: "occurs_at s sub j \<Longrightarrow> j \<le> length s"
  by (simp add: occurs_at_def)

lemma find_from_Some_iff: "find_from s sub start = Some i \<longleftrightarrow> first_occurrence s sub start i"
proof (cases "start \<le> length s")
  case True
  have "(\<forall>j<i - start. \<not> occurs_at s sub (start + j)) \<longleftrightarrow>
      (\<forall>j\<in>set [start..<i]. \<not> occurs_at s sub j)"
  proof
    assume a: "\<forall>j<i - start. \<not> occurs_at s sub (start + j)"
    show "\<forall>j\<in>set [start..<i]. \<not> occurs_at s sub j"
    proof
      fix j assume "j \<in> set [start..<i]"
      then have "j - start < i - start" "start + (j - start) = j" by auto
      with a show "\<not> occurs_at s sub j" by metis
    qed
  next
    assume a: "\<forall>j\<in>set [start..<i]. \<not> occurs_at s sub j"
    show "\<forall>j<i - start. \<not> occurs_at s sub (start + j)"
    proof (intro allI impI)
      fix j assume "j < i - start"
      then have "start + j \<in> set [start..<i]" by auto
      with a show "\<not> occurs_at s sub (start + j)" by blast
    qed
  qed
  moreover have "start \<le> i \<Longrightarrow> start + (i - start) = i" by simp
  ultimately show ?thesis
    using True
    by (auto simp: find_from_def first_occurrence_def find_at_Some_iff occurs_at_drop)
next
  case False
  then have "find_from s sub start = None" by (simp add: find_from_def)
  moreover have "\<not> first_occurrence s sub start i"
  proof
    assume "first_occurrence s sub start i"
    then have "start \<le> i" "occurs_at s sub i" by (simp_all add: first_occurrence_def)
    with occurs_at_bound [of s sub i] False show False by simp
  qed
  ultimately show ?thesis by simp
qed

lemma find_from_None_iff: "find_from s sub start = None \<longleftrightarrow> no_occurrence s sub start"
proof (cases "start \<le> length s")
  case True
  have "(\<forall>j. \<not> occurs_at s sub (start + j)) \<longleftrightarrow>
      (\<forall>j\<in>set [start..<Suc (length s)]. \<not> occurs_at s sub j)"
  proof
    assume a: "\<forall>j. \<not> occurs_at s sub (start + j)"
    show "\<forall>j\<in>set [start..<Suc (length s)]. \<not> occurs_at s sub j"
    proof
      fix j assume "j \<in> set [start..<Suc (length s)]"
      then have "start + (j - start) = j" by auto
      with a show "\<not> occurs_at s sub j" by metis
    qed
  next
    assume a: "\<forall>j\<in>set [start..<Suc (length s)]. \<not> occurs_at s sub j"
    show "\<forall>j. \<not> occurs_at s sub (start + j)"
    proof
      fix j show "\<not> occurs_at s sub (start + j)"
      proof
        assume o: "occurs_at s sub (start + j)"
        from occurs_at_bound [OF this] have "start + j \<in> set [start..<Suc (length s)]" by auto
        with a o show False by blast
      qed
    qed
  qed
  then show ?thesis
    using True by (simp add: find_from_def no_occurrence_def find_at_None_iff occurs_at_drop)
next
  case False
  then show ?thesis by (simp add: find_from_def no_occurrence_def)
qed

lemma scan_img_found:
  assumes "first_occurrence content (str ''<img'') 0 a"
    and "first_occurrence content (str ''src='' @ [0x22]) a b"
    and "first_occurrence content [0x22] (b + 5) c"
  shows "scan_img content = slice content (b + 5) c"
proof -
  from assms have "find_from content (str ''<img'') 0 = Some a"
    "find_from content (str ''src='' @ [0x22]) a = Some b"
    "find_from content [0x22] (b + 5) = Some c"
    by (simp_all only: find_from_Some_iff)
  then show ?thesis by (simp only: scan_img_def option.case)
qed

lemma scan_img_not_found:
  assumes "no_occurrence content (str ''<img'') 0 \<or>
     (first_occurrence content (str ''<img'') 0 a \<and>
      no_occurrence content (str ''src='' @ [0x22]) a) \<or>
     (first_occurrence content (str ''<img'') 0 a \<and>
      first_occurrence content (str ''src='' @ [0x22]) a b \<and>
      no_occurrence content [0x22] (b + 5))"
  shows "scan_img content = []"
  using assms
  by (auto simp only: scan_img_def option.case
      find_from_Some_iff [symmetric] find_from_None_iff [symmetric])

lemma scan_img_Nil: "scan_img [] = []"
  by (simp add: scan_img_def find_from_def)

lemma rss_image_tiers:
  "rss_image item =
     (if media_url item \<noteq> [] then media_url item
      else if enclosure_image_url item \<noteq> [] then enclosure_image_url item
      else encoded_img_src item)"
  by (auto simp: rss_image_def media_url_def enclosure_image_url_def encoded_img_src_def
      scan_img_Nil Let_def split: option.splits)

lemma rss_item_image: "rss_item L sn sc item = Inr (Some e) \<Longrightarrow> image_url e = rss_image item"
  by (auto simp: rss_item_def Let_def split: sum.splits if_splits)

text \<open>
  C7, as amended. The image of an RSS item is the first non-empty one of: the \<open>url\<close>
  attribute of the item's first Media-RSS \<open>content\<close> child; the \<open>url\<close> attribute of the
  item's first \<open>enclosure\<close> child, if the \<open>type\<close> of that child contains \<open>image\<close>; the
  value scanned from the \<open>content:encoded\<close> text. An item whose Media-RSS \<open>content\<close>
  child has a non-empty \<open>url\<close> resolves to it, whatever its enclosure. \<open>find\<close> returns
  the index of the first occurrence at or after its start, and nothing exactly when
  there is no occurrence there. The scan takes the first \<open><img\<close> of the text, the first
  \<open>src="\<close> at or after it and the first double quote after that \<open>src="\<close>, and returns
  the text between the last two; it returns the empty text when one of the three is not
  found.
\<close>

theorem image_priority:
  "rss_image item =
     (if media_url item \<noteq> [] then media_url item
      else if enclosure_image_url item \<noteq> [] then enclosure_image_url item
      else encoded_img_src item) \<and>
   (rss_item L sn sc item = Inr (Some e) \<longrightarrow> image_url e = rss_image item) \<and>
   (find_child item mrss_content = Some media \<and> get_attr media (str ''url'') [] \<noteq> [] \<longrightarrow>
      rss_image item = get_attr media (str ''url'') []) \<and>
   (find_from s sub start = Some i \<longleftrightarrow> first_occurrence s sub start i) \<and>
   (find_from s sub start = None \<longleftrightarrow> no_occurrence s sub start) \<and>
   (first_occurrence content (str ''<img'') 0 a \<and>
    first_occurrence content (str ''src='' @ [0x22]) a b \<and>
    first_occurrence content [0x22] (b + 5) c \<longrightarrow>
      scan_img content = slice content (b + 5) c) \<and>
   (no_occurrence content (str ''<img'') 0 \<or>
    (first_occurrence content (str ''<img'') 0 a \<and>
     no_occurrence content (str ''src='' @ [0x22]) a) \<or>
    (first_occurrence content (str ''<img'') 0 a \<and>
     first_occurrence content (str ''src='' @ [0x22]) a b \<and>
     no_occurrence content [0x22] (b + 5)) \<longrightarrow>
      scan_img content = [])"
proof (intro conjI impI)
  show "rss_image item =
     (if media_url item \<noteq> [] then media_url item
      else if enclosure_image_url item \<noteq> [] then enclosure_image_url item
      else encoded_img_src item)" by (rule rss_image_tiers)
  show "image_url e = rss_image item" if "rss_item L sn sc item = Inr (Some e)"
    using that by (rule rss_item_image)
  show "rss_image item = get_attr media (str ''url'') []"
    if "find_child item mrss_content = Some media \<and> get_attr media (str ''url'') [] \<noteq> []"
    using that by (simp add: rss_image_tiers media_url_def)
  show "find_from s sub start = Some i \<longleftrightarrow> first_occurrence s sub start i"
    by (rule find_from_Some_iff)
  show "find_from s sub start = None \<longleftrightarrow> no_occurrence s sub start"
    by (rule find_from_None_iff)
  show "scan_img content = slice content (b + 5) c"
    if "first_occurrence content (str ''<img'') 0 a \<and>
      first_occurrence content (str ''src='' @ [0x22]) a b \<and>
      first_occurrence content [0x22] (b + 5) c"
    using that by (intro scan_img_found [of content a b c]) simp_all
  show "scan_img content = []"
    if "no_occurrence content (str ''<img'') 0 \<or>
      (first_occurrence content (str ''<img'') 0 a \<and>
       no_occurrence content (str ''src='' @ [0x22]) a) \<or>
      (first_occurrence content (str ''<img'') 0 a \<and>
       first_occurrence content (str ''src='' @ [0x22]) a b \<and>
       no_occurrence content [0x22] (b + 5))"
    using that by (rule scan_img_not_found)
qed

text \<open>
  Instances: an item with a Media-RSS \<open>content\<close> child and an \<open>image/jpeg\<close> enclosure; the
  text \<open><p>Hello</p><img alt="x" src="http://e/c.jpg">\<close>, where other tags and other
  quotes come before the \<open>src\<close>; a text with an \<open><img\<close> and no \<open>src="\<close>.
\<close>

theorem image_priority_witness:
  "rss_image item_media_enclosure = str ''http://e/m.jpg'' \<and>
   findtext item_encoded content_encoded [] =
     str ''<p>Hello</p><img alt='' @ [0x22] @ str ''x'' @ [0x22] @ str '' src='' @ [0x22]
       @ str ''http://e/c.jpg'' @ [0x22] @ str ''>'' \<and>
   first_occurrence (findtext item_encoded content_encoded []) (str ''<img'') 0 12 \<and>
   first_occurrence (findtext item_encoded content_encoded []) (str ''src='' @ [0x22]) 12 25 \<and>
   first_occurrence (findtext item_encoded content_encoded []) [0x22] 30 44 \<and>
   scan_img (findtext item_encoded content_encoded []) = str ''http://e/c.jpg'' \<and>
   rss_image item_encoded = str ''http://e/c.jpg'' \<and>
   first_occurrence (str ''<p><img alt=x></p>'') (str ''<img'') 0 3 \<and>
   no_occurrence (str ''<p><img alt=x></p>'') (str ''src='' @ [0x22]) 3 \<and>
   scan_img (str ''<p><img alt=x></p>'') = []"
proof -
  let ?c = "findtext item_encoded content_encoded []"
  have m: "find_child item_media_enclosure mrss_content =
      Some (Element mrss_content [(str ''url'', str ''http://e/m.jpg'')] None []) \<and>
    get_attr (Element mrss_content [(str ''url'', str ''http://e/m.jpg'')] None []) (str ''url'') [] \<noteq> []"
    by (simp add: item_media_enclosure_def find_child_def get_attr_def)
  have 1: "rss_image item_media_enclosure = str ''http://e/m.jpg''"
    using m image_priority [where item = item_media_enclosure
        and media = "Element mrss_content [(str ''url'', str ''http://e/m.jpg'')] None []",
        THEN conjunct2, THEN conjunct2, THEN conjunct1]
    by (simp add: get_attr_def)
  have c: "?c = str ''<p>Hello</p><img alt='' @ [0x22] @ str ''x'' @ [0x22] @ str '' src='' @ [0x22]
       @ str ''http://e/c.jpg'' @ [0x22] @ str ''>''"
    by (simp add: item_encoded_def xml_eval)
  have f: "first_occurrence ?c (str ''<img'') 0 12"
    "first_occurrence ?c (str ''src='' @ [0x22]) 12 25"
    "first_occurrence ?c [0x22] 30 44"
    unfolding c by (simp_all add: first_occurrence_def occurs_at_def upt_conv_Cons)
  have s: "scan_img ?c = str ''http://e/c.jpg''"
    using f image_priority [where content = ?c and a = 12 and b = 25 and c = 44,
        THEN conjunct2, THEN conjunct2, THEN conjunct2, THEN conjunct2, THEN conjunct2,
        THEN conjunct1]
    by (simp add: c slice_def)
  have 2: "rss_image item_encoded = str ''http://e/c.jpg''"
    using s image_priority [where item = item_encoded, THEN conjunct1]
    by (simp add: item_encoded_def xml_eval media_url_def enclosure_image_url_def encoded_img_src_def)
  have g: "first_occurrence (str ''<p><img alt=x></p>'') (str ''<img'') 0 3"
    "no_occurrence (str ''<p><img alt=x></p>'') (str ''src='' @ [0x22]) 3"
    by (simp_all add: first_occurrence_def no_occurrence_def occurs_at_def upt_conv_Cons)
  have 3: "scan_img (str ''<p><img alt=x></p>'') = []"
    using g image_priority [where content = "str ''<p><img alt=x></p>''" and a = 3,
        THEN conjunct2, THEN conjunct2, THEN conjunct2, THEN conjunct2, THEN conjunct2,
        THEN conjunct2]
    by simp
  show ?thesis
    by (intro conjI 1 c f s 2 g 3)
qed

text \<open>
  The claim as stated fails: an item with a Media-RSS \<open>content\<close> child without \<open>url\<close> and
  an \<open>image/jpeg\<close> enclosure resolves to the enclosure; and an image enclosure that follows
  an audio enclosure is not used.
\<close>

theorem image_priority_counterexample:
  "find_child item_media_no_url mrss_content \<noteq> None \<and>
   find_child item_media_no_url (str ''enclosure'') \<noteq> None \<and>
   rss_image item_media_no_url = str ''http://e/e.jpg'' \<and>
   rss_image item_two_enclosures = []"
  by (simp add: item_media_no_url_def item_two_enclosures_def rss_image_def xml_eval media_url_def enclosure_image_url_def encoded_img_src_def scan_img_Nil)

section \<open>Dialect detection\<close>

lemma str_contains_iff:
  "str_contains sub s \<longleftrightarrow> (\<exists>i. i + length sub \<le> length s \<and> take (length sub) (drop i s) = sub)"
proof (induction s)
  case Nil
  show ?case by auto
next
  case (Cons c cs)
  show ?case
  proof
    assume "str_contains sub (c # cs)"
    then consider "take (length sub) (c # cs) = sub" | "str_contains sub cs" by auto
    then show "\<exists>i. i + length sub \<le> length (c # cs) \<and> take (length sub) (drop i (c # cs)) = sub"
    proof cases
      case 1
      have "length (take (length sub) (c # cs)) = length sub"
        by (simp only: 1)
      then have "length sub \<le> length (c # cs)"
        by (simp add: min_def split: if_splits)
      with 1 show ?thesis by (intro exI [of _ 0]) simp
    next
      case 2
      with Cons.IH obtain i where "i + length sub \<le> length cs" "take (length sub) (drop i cs) = sub"
        by blast
      then show ?thesis by (intro exI [of _ "Suc i"]) simp
    qed
  next
    assume "\<exists>i. i + length sub \<le> length (c # cs) \<and> take (length sub) (drop i (c # cs)) = sub"
    then obtain i where i: "i + length sub \<le> length (c # cs)" "take (length sub) (drop i (c # cs)) = sub"
      by blast
    show "str_contains sub (c # cs)"
    proof (cases i)
      case 0
      with i show ?thesis by simp
    next
      case (Suc j)
      with i have "j + length sub \<le> length cs" "take (length sub) (drop j cs) = sub" by simp_all
      with Cons.IH have "str_contains sub cs" by blast
      then show ?thesis by simp
    qed
  qed
qed

lemma str_contains_take:
  "str_contains sub (take n s) \<longleftrightarrow>
     (\<exists>i. i + length sub \<le> n \<and> i + length sub \<le> length s \<and> take (length sub) (drop i s) = sub)"
proof -
  have "(i + length sub \<le> length (take n s) \<and> take (length sub) (drop i (take n s)) = sub)
      \<longleftrightarrow> (i + length sub \<le> n \<and> i + length sub \<le> length s \<and> take (length sub) (drop i s) = sub)" for i
    by (auto simp: drop_take min_def)
  then show ?thesis
    unfolding str_contains_iff by blast
qed

lemma is_atom_iff: "is_atom xml_text \<longleftrightarrow> feed_within_500 xml_text"
proof -
  have len: "length (str ''<feed'') = 5" by simp
  show ?thesis
    unfolding is_atom_def feed_within_500_def str_contains_take len by (rule refl)
qed

text \<open>
  C8. The run parses a fetched text with the Atom parser if and only if \<open><feed\<close> occurs
  within the first 500 characters of the text, and with the RSS parser otherwise.
\<close>

theorem dialect_detection:
  "is_atom xml_text = feed_within_500 xml_text \<and>
   process_feed L f (Some xml_text) =
     (if feed_within_500 xml_text then parse_atom L xml_text (name f) (feed_category f)
      else parse_rss L xml_text (name f) (feed_category f))"
  by (simp add: process_feed_def is_atom_iff)

text \<open>
  An Atom text, and a text whose only \<open><feed\<close> starts at index 496 and so ends outside
  the first 500 characters.
\<close>

theorem dialect_detection_witness:
  "feed_within_500 (str ''<feed>'') \<and>
   process_feed lib_sample feed_sample (Some (str ''<feed>'')) =
     parse_atom lib_sample (str ''<feed>'') (str ''Sample'') (str ''news'') \<and>
   \<not> feed_within_500 (replicate 496 32 @ str ''<feed>'') \<and>
   process_feed lib_sample feed_sample (Some (replicate 496 32 @ str ''<feed>'')) =
     parse_rss lib_sample (replicate 496 32 @ str ''<feed>'') (str ''Sample'') (str ''news'')"
proof -
  have a: "is_atom (str ''<feed>'')"
    by (simp add: is_atom_def)
  have t: "take 500 (replicate 496 32 @ str ''<feed>'') = replicate 496 32 @ str ''<fee''"
    by simp
  have nc: "\<not> str_contains (str ''<feed'') (replicate n 32 @ str ''<fee'')" for n
    by (induction n) simp_all
  have b: "\<not> is_atom (replicate 496 32 @ str ''<feed>'')"
    unfolding is_atom_def t by (rule nc)
  show ?thesis
    using a b dialect_detection [of "str ''<feed>''" lib_sample feed_sample]
      dialect_detection [of "replicate 496 32 @ str ''<feed>''" lib_sample feed_sample]
    by (simp add: feed_sample_def)
qed

section \<open>The publish date of an Atom entry\<close>

lemma replace_char_notin: "old \<notin> set s \<Longrightarrow> replace_char s old new = s"
  by (induction s) (auto simp: replace_char_def)

lemma replace_char_append:
  "replace_char (a @ b) old new = replace_char a old new @ replace_char b old new"
  by (simp add: replace_char_def)

lemma replace_trailing_Z:
  "90 \<notin> set s \<Longrightarrow> replace_char (s @ [90]) 90 (str ''+00:00'') = s @ str ''+00:00''"
  by (simp add: replace_char_append replace_char_notin) (simp add: replace_char_def)

lemma atom_entry_date:
  assumes "atom_entry L sn sc node = Inr (Some e)"
  shows "atom_pub_date L (atom_date_str node) = Inr (date e)"
  using assms by (auto simp: atom_entry_def Let_def split: sum.splits if_splits)

lemma try_parse_date_cases:
  "try_parse_date parse s =
     (case parse s of Inr d \<Rightarrow> Inr (Some d)
      | Inl e \<Rightarrow> if e = ValueError \<or> e = TypeError then Inr None else Inl e)"
  by (simp add: try_parse_date_def)

lemma atom_pub_date_total:
  assumes "\<forall>x err. fromisoformat L x = Inl err \<longrightarrow> err = ValueError \<or> err = TypeError"
  shows "\<exists>d. atom_pub_date L ds = Inr d"
proof (cases "fromisoformat L (replace_char ds 90 (str ''+00:00''))")
  case (Inl err)
  with assms have "err = ValueError \<or> err = TypeError" by blast
  with Inl show ?thesis by (auto simp: atom_pub_date_def try_parse_date_def)
next
  case (Inr d)
  then show ?thesis by (auto simp: atom_pub_date_def try_parse_date_def)
qed

lemma atom_entry_returns:
  assumes "\<forall>x err. fromisoformat L x = Inl err \<longrightarrow> err = ValueError \<or> err = TypeError"
    and "strip_html (html5 L) (atom_summary node) = Inr plain"
  shows "\<exists>r. atom_entry L sn sc node = Inr r"
proof -
  from atom_pub_date_total [OF assms(1)] obtain d where
    "atom_pub_date L (atom_date_str node) = Inr d" by blast
  with assms(2) show ?thesis by (simp add: atom_entry_def Let_def)
qed

lemma atom_entry_raises:
  assumes "\<forall>x err. fromisoformat L x = Inl err \<longrightarrow> err = ValueError \<or> err = TypeError"
    and "atom_entry L sn sc node = Inl e"
  shows "strip_html (html5 L) (atom_summary node) = Inl e"
proof -
  from atom_pub_date_total [OF assms(1)] obtain d where
    "atom_pub_date L (atom_date_str node) = Inr d" by blast
  with assms(2) show ?thesis
    by (simp add: atom_entry_def Let_def split: if_splits sum.splits)
qed

lemma strip_html_long_reference:
  "strip_html T (str ''&#'' @ replicate 4301 0x31 @ str '';'') = Inl ValueError"
proof -
  let ?ds = "replicate 4301 (0x31 :: nat)"
  have ds: "?ds \<noteq> []" "list_all is_digit ?ds" "max_str_digits < length ?ds"
    by (simp_all add: list_all_iff is_digit_def max_str_digits_def)
  have "remove_tags False (0x26 # 0x23 # ?ds @ [0x3B]) = 0x26 # 0x23 # ?ds @ [0x3B]"
    by (rule remove_tags_plain) simp_all
  moreover have "unescape T ([] @ 0x26 # (0x23 # ?ds @ [0x3B]) @ []) = Inl ValueError"
    using sub_charref_match [of "[]" "0x23 # ?ds @ [0x3B]" "[]" T]
      match_decimal [OF ds(1,2), of "[]"] replace_decimal_long [OF ds, of T]
    by simp
  ultimately show ?thesis by (simp add: strip_html_def)
qed

text \<open>
  C9, as amended. The date text of an Atom entry is the trimmed text of the \<open>published\<close>
  child if that is non-empty, else the trimmed text of the \<open>updated\<close> child. The date of
  the entry is the parse of that text: unset for an empty text; else the value of
  \<open>datetime.fromisoformat\<close> on the text with each \<open>Z\<close> replaced by \<open>+00:00\<close> (so a trailing
  \<open>Z\<close> becomes the UTC offset); unset when the parser raises \<open>ValueError\<close> or \<open>TypeError\<close>.
  With a parser that raises nothing else, the parse of the date raises nothing for any
  text; the normalizer returns for every entry whose summary \<open>strip_html\<close> accepts, and
  an exception of the normalizer is the exception of \<open>strip_html\<close> on the summary.
\<close>

theorem atom_publish_date:
  "atom_date_str node =
     (if strip (findtext node (atom ''published'') []) \<noteq> []
      then strip (findtext node (atom ''published'') [])
      else strip (findtext node (atom ''updated'') [])) \<and>
   (atom_entry L sn sc node = Inr (Some e) \<longrightarrow>
      atom_pub_date L (atom_date_str node) = Inr (date e)) \<and>
   atom_pub_date L [] = Inr None \<and>
   (ds \<noteq> [] \<and> fromisoformat L (replace_char ds 90 (str ''+00:00'')) = Inr d \<longrightarrow>
      atom_pub_date L ds = Inr (Some d)) \<and>
   (fromisoformat L (replace_char ds 90 (str ''+00:00'')) = Inl ValueError \<or>
    fromisoformat L (replace_char ds 90 (str ''+00:00'')) = Inl TypeError \<longrightarrow>
      atom_pub_date L ds = Inr None) \<and>
   (90 \<notin> set s \<longrightarrow> replace_char (s @ [90]) 90 (str ''+00:00'') = s @ str ''+00:00'') \<and>
   ((\<forall>x err. fromisoformat L x = Inl err \<longrightarrow> err = ValueError \<or> err = TypeError) \<longrightarrow>
      (\<exists>r. atom_pub_date L ds = Inr r)) \<and>
   ((\<forall>x err. fromisoformat L x = Inl err \<longrightarrow> err = ValueError \<or> err = TypeError) \<and>
    strip_html (html5 L) (atom_summary node) = Inr plain \<longrightarrow>
      (\<exists>r. atom_entry L sn sc node = Inr r)) \<and>
   ((\<forall>x err. fromisoformat L x = Inl err \<longrightarrow> err = ValueError \<or> err = TypeError) \<and>
    atom_entry L sn sc node = Inl err \<longrightarrow>
      strip_html (html5 L) (atom_summary node) = Inl err)"
proof (intro conjI impI)
  show "atom_date_str node =
     (if strip (findtext node (atom ''published'') []) \<noteq> []
      then strip (findtext node (atom ''published'') [])
      else strip (findtext node (atom ''updated'') []))"
    by (simp add: atom_date_str_def Let_def)
  show "atom_pub_date L (atom_date_str node) = Inr (date e)"
    if "atom_entry L sn sc node = Inr (Some e)" using that by (rule atom_entry_date)
  show "atom_pub_date L [] = Inr None" by (simp add: atom_pub_date_def)
  show "atom_pub_date L ds = Inr (Some d)"
    if "ds \<noteq> [] \<and> fromisoformat L (replace_char ds 90 (str ''+00:00'')) = Inr d"
    using that by (simp add: atom_pub_date_def try_parse_date_def)
  show "atom_pub_date L ds = Inr None"
    if "fromisoformat L (replace_char ds 90 (str ''+00:00'')) = Inl ValueError \<or>
        fromisoformat L (replace_char ds 90 (str ''+00:00'')) = Inl TypeError"
    using that by (auto simp: atom_pub_date_def try_parse_date_def)
  show "replace_char (s @ [90]) 90 (str ''+00:00'') = s @ str ''+00:00''" if "90 \<notin> set s"
    using that by (rule replace_trailing_Z)
  show "\<exists>r. atom_pub_date L ds = Inr r"
    if "\<forall>x err. fromisoformat L x = Inl err \<longrightarrow> err = ValueError \<or> err = TypeError"
    using that by (rule atom_pub_date_total)
  show "\<exists>r. atom_entry L sn sc node = Inr r"
    if "(\<forall>x err. fromisoformat L x = Inl err \<longrightarrow> err = ValueError \<or> err = TypeError) \<and>
      strip_html (html5 L) (atom_summary node) = Inr plain"
    using that atom_entry_returns [of L node plain sn sc] by blast
  show "strip_html (html5 L) (atom_summary node) = Inl err"
    if "(\<forall>x err. fromisoformat L x = Inl err \<longrightarrow> err = ValueError \<or> err = TypeError) \<and>
      atom_entry L sn sc node = Inl err"
    using that atom_entry_raises [of L sn sc node err] by blast
qed

lemma atom_entry_sample:
  "atom_entry lib_sample (str ''Sample'') (str ''news'')
     (atom_node (Some ''2024-01-01T00:00:00Z'') None) = Inr (Some (atom_result (Some dt_utc)))"
  "atom_entry lib_sample (str ''Sample'') (str ''news'')
     (atom_node None (Some ''2024-01-01T00:00:00Z'')) = Inr (Some (atom_result (Some dt_utc)))"
  "atom_entry lib_sample (str ''Sample'') (str ''news'')
     (atom_node (Some ''next week'') None) = Inr (Some (atom_result None))"
  "atom_entry lib_sample (str ''Sample'') (str ''news'')
     (atom_node None None) = Inr (Some (atom_result None))"
  "atom_entry lib_sample (str ''Sample'') (str ''news'')
     (atom_node (Some ''  '') (Some ''2024-01-01T00:00:00Z'')) = Inr (Some (atom_result (Some dt_utc)))"
  by (simp_all add: atom_entry_def atom_date_str_def atom_pub_date_def try_parse_date_def
      replace_char_def atom_node_def atom_result_def xml_eval str_eval sample_eval
      strip_html_def unescape_def Let_def)

text \<open>
  Instances: a date with a trailing \<open>Z\<close>, a date taken from \<open>updated\<close>, a text that is not
  a date, and an entry whose summary holds a decimal reference of 4301 digits: its date
  is unset, and the exception of the normalizer is that of \<open>strip_html\<close>.
\<close>

theorem atom_publish_date_witness:
  "atom_entry lib_sample (str ''Sample'') (str ''news'')
     (atom_node (Some ''2024-01-01T00:00:00Z'') None) = Inr (Some (atom_result (Some dt_utc))) \<and>
   atom_pub_date lib_sample (str ''2024-01-01T00:00:00Z'') = Inr (Some dt_utc) \<and>
   atom_date_str (atom_node None (Some ''2024-01-01T00:00:00Z'')) = str ''2024-01-01T00:00:00Z'' \<and>
   atom_pub_date lib_sample (str ''next week'') = Inr None \<and>
   replace_char (str ''2024-01-01T00:00:00Z'') 90 (str ''+00:00'') = str ''2024-01-01T00:00:00+00:00'' \<and>
   strip_html (html5 lib_sample) (atom_summary (atom_node (Some ''next week'') None)) = Inr [] \<and>
   atom_entry lib_sample (str ''Sample'') (str ''news'') (atom_node (Some ''next week'') None) =
     Inr (Some (atom_result None)) \<and>
   atom_pub_date lib_sample (atom_date_str atom_node_long_summary) = Inr None \<and>
   atom_entry lib_sample (str ''Sample'') (str ''news'') atom_node_long_summary = Inl ValueError \<and>
   strip_html (html5 lib_sample) (atom_summary atom_node_long_summary) = Inl ValueError"
proof -
  note a = atom_entry_sample(1)
  have z: "replace_char (str ''2024-01-01T00:00:00Z'') 90 (str ''+00:00'') = str ''2024-01-01T00:00:00+00:00''"
    using atom_publish_date [where s = "str ''2024-01-01T00:00:00''", THEN conjunct2,
        THEN conjunct2, THEN conjunct2, THEN conjunct2, THEN conjunct2, THEN conjunct1]
    by simp
  have p: "atom_pub_date lib_sample (str ''2024-01-01T00:00:00Z'') = Inr (Some dt_utc)"
    using z atom_publish_date [where L = lib_sample and ds = "str ''2024-01-01T00:00:00Z''"
        and d = dt_utc, THEN conjunct2, THEN conjunct2, THEN conjunct2, THEN conjunct1]
    by (simp add: lib_sample_def)
  have u: "atom_date_str (atom_node None (Some ''2024-01-01T00:00:00Z'')) = str ''2024-01-01T00:00:00Z''"
    using atom_publish_date [where node = "atom_node None (Some ''2024-01-01T00:00:00Z'')",
        THEN conjunct1]
    by (simp add: atom_node_def xml_eval str_eval)
  have n: "atom_pub_date lib_sample (str ''next week'') = Inr None"
    using atom_publish_date [where L = lib_sample and ds = "str ''next week''",
        THEN conjunct2, THEN conjunct2, THEN conjunct2, THEN conjunct2, THEN conjunct1]
    by (simp add: lib_sample_def replace_char_def)
  have lib: "\<forall>x err. fromisoformat lib_sample x = Inl err \<longrightarrow> err = ValueError \<or> err = TypeError"
    by (simp add: lib_sample_def)
  have h: "html5 lib_sample = html5_sample"
    by (simp add: lib_sample_def)
  have s: "strip_html (html5 lib_sample) (atom_summary (atom_node (Some ''next week'') None)) = Inr []"
    by (simp add: atom_node_def xml_eval str_eval strip_html_def unescape_def)
  have "\<exists>r. atom_entry lib_sample (str ''Sample'') (str ''news'') (atom_node (Some ''next week'') None) = Inr r"
    using lib s atom_publish_date [where L = lib_sample and sn = "str ''Sample''" and sc = "str ''news''"
        and node = "atom_node (Some ''next week'') None" and plain = "[]", THEN conjunct2,
        THEN conjunct2, THEN conjunct2, THEN conjunct2, THEN conjunct2, THEN conjunct2,
        THEN conjunct2, THEN conjunct1]
    by blast
  then have t: "atom_entry lib_sample (str ''Sample'') (str ''news'') (atom_node (Some ''next week'') None) =
      Inr (Some (atom_result None))"
    using atom_entry_sample(3) by simp
  have ld: "atom_date_str atom_node_long_summary = str ''next week''"
    by (simp add: atom_node_long_summary_def atom_date_str_def xml_eval str_eval)
  have ls: "atom_summary atom_node_long_summary = str ''&#'' @ replicate 4301 0x31 @ str '';''"
    by (simp add: atom_node_long_summary_def xml_eval str_eval)
  have d: "atom_pub_date lib_sample (atom_date_str atom_node_long_summary) = Inr None"
    unfolding ld by (rule n)
  have e: "atom_entry lib_sample (str ''Sample'') (str ''news'') atom_node_long_summary = Inl ValueError"
    using d strip_html_long_reference [of html5_sample]
    by (simp add: atom_entry_def Let_def ls h)
      (simp add: atom_node_long_summary_def xml_eval str_eval)
  have r: "strip_html (html5 lib_sample) (atom_summary atom_node_long_summary) = Inl ValueError"
    using lib e atom_publish_date [where L = lib_sample and sn = "str ''Sample''" and sc = "str ''news''"
        and node = atom_node_long_summary and err = ValueError, THEN conjunct2,
        THEN conjunct2, THEN conjunct2, THEN conjunct2, THEN conjunct2, THEN conjunct2,
        THEN conjunct2, THEN conjunct2]
    by blast
  show ?thesis
    by (intro conjI a z p u n s t d e r)
qed

text \<open>
  The claim as stated fails: a \<open>published\<close> text of two spaces is present and non-empty,
  yet the date is taken from \<open>updated\<close>, because the texts are trimmed first.
\<close>

theorem blank_published_counterexample:
  "findtext (atom_node (Some ''  '') (Some ''2024-01-01T00:00:00Z'')) (atom ''published'') [] \<noteq> [] \<and>
   atom_date_text_spec (atom_node (Some ''  '') (Some ''2024-01-01T00:00:00Z'')) = str ''  '' \<and>
   atom_date_str (atom_node (Some ''  '') (Some ''2024-01-01T00:00:00Z'')) = str ''2024-01-01T00:00:00Z'' \<and>
   atom_pub_date lib_sample (str ''  '') = Inr None \<and>
   atom_entry lib_sample (str ''Sample'') (str ''news'')
     (atom_node (Some ''  '') (Some ''2024-01-01T00:00:00Z'')) = Inr (Some (atom_result (Some dt_utc)))"
  using atom_entry_sample(5)
  by (simp add: atom_date_text_spec_def atom_date_str_def atom_pub_date_def try_parse_date_def
      replace_char_def atom_node_def xml_eval str_eval lib_sample_def Let_def)

section \<open>Dates in the future\<close>




end
